theory Spec2Isabelle
  imports Main "HOL-Library.Word"
begin

unbundle bit_operations_syntax

section \<open>The HTML-to-image server (server.js)\<close>

text \<open>
  A shallow embedding of \<^verbatim>\<open>server.js\<close>: the module-level variables \<^verbatim>\<open>imageCache\<close>,
  \<^verbatim>\<open>activeRequests\<close> and \<^verbatim>\<open>browser\<close> are the fields of a state record that every
  function takes and returns; a thrown exception or rejected promise is the left summand of
  the result; the calls into puppeteer, the clock and the process are answered by an
  environment record, and each such call is appended to a trace kept in the state.

  Strings are HOL strings: a \<^typ>\<open>char\<close> stands for one UTF-16 code unit below 256, which
  covers ASCII and Latin-1 text. JavaScript numbers are modelled where they are integers.
  Console output and the values derived from wall-clock differences or floating-point
  arithmetic (the \<^verbatim>\<open>X-Processing-Time\<close> header, the \<^verbatim>\<open>processingTime\<close>,
  \<^verbatim>\<open>timestamp\<close>, \<^verbatim>\<open>received\<close>, \<^verbatim>\<open>uptime\<close> and \<^verbatim>\<open>memory\<close> fields of JSON bodies) are
  left out of the responses.
\<close>

subsection \<open>JSON values, property access and \<^verbatim>\<open>JSON.stringify\<close>\<close>

text \<open>
  The request body is produced by \<^verbatim>\<open>JSON.parse\<close>, so the \<^verbatim>\<open>options\<close> value is a JSON value.
  An object lists its members, with pairwise distinct names, in the order in which
  JavaScript enumerates them: for names that are not array indices, as all option names
  are, this is the order of insertion, that is the order of the request text.
\<close>

text \<open>
  \<open>JNum i\<close> is the number \<open>i\<close> for an integer of magnitude below \<open>2^53\<close>, which
  \<^verbatim>\<open>JSON.parse\<close> reads and \<^verbatim>\<open>JSON.stringify\<close> prints exactly, digit by digit. Fractions and
  larger numbers, which JavaScript rounds and prints in other forms, are outside the model.
\<close>

datatype json =
    JNull
  | JBool bool
  | JNum int
  | JStr string
  | JArr "json list"
  | JObj "(string \<times> json) list"

function decimal :: "nat \<Rightarrow> string" where
  "decimal n = (if n < 10 then [''0123456789'' ! n]
                else decimal (n div 10) @ [''0123456789'' ! (n mod 10)])"
  by pat_completeness auto
termination
  by (relation "measure (\<lambda>n. n)") auto

declare decimal.simps [simp del]

definition number_to_string :: "int \<Rightarrow> string" where
  "number_to_string i = (if i < 0 then ''-'' @ decimal (nat (- i)) else decimal (nat i))"

fun join :: "string \<Rightarrow> string list \<Rightarrow> string" where
  "join sep [] = []"
| "join sep [x] = x"
| "join sep (x # y # ys) = x @ sep @ join sep (y # ys)"

definition hex_digit :: "nat \<Rightarrow> char" where
  "hex_digit n = ''0123456789abcdef'' ! n"

text \<open>\<^verbatim>\<open>QuoteJSONString\<close>: the escapes of a string literal in the output of \<^verbatim>\<open>JSON.stringify\<close>.\<close>

definition json_escape :: "char \<Rightarrow> string" where
  "json_escape c =
     (let n = (of_char c :: nat) in
      if n = 0x22 then [CHR 0x5C, CHR 0x22]
      else if n = 0x5C then [CHR 0x5C, CHR 0x5C]
      else if n = 0x08 then [CHR 0x5C, CHR ''b'']
      else if n = 0x0C then [CHR 0x5C, CHR ''f'']
      else if n = 0x0A then [CHR 0x5C, CHR ''n'']
      else if n = 0x0D then [CHR 0x5C, CHR ''r'']
      else if n = 0x09 then [CHR 0x5C, CHR ''t'']
      else if n < 0x20 then [CHR 0x5C, CHR ''u'', CHR ''0'', CHR ''0'',
                             hex_digit (n div 16), hex_digit (n mod 16)]
      else [c])"

definition json_quote :: "string \<Rightarrow> string" where
  "json_quote s = [CHR 0x22] @ concat (map json_escape s) @ [CHR 0x22]"

fun JSON_stringify :: "json \<Rightarrow> string"
  and stringify_elements :: "json list \<Rightarrow> string list"
  and stringify_members :: "(string \<times> json) list \<Rightarrow> string list" where
  "JSON_stringify JNull = ''null''"
| "JSON_stringify (JBool b) = (if b then ''true'' else ''false'')"
| "JSON_stringify (JNum i) = number_to_string i"
| "JSON_stringify (JStr s) = json_quote s"
| "JSON_stringify (JArr xs) = ''['' @ join '','' (stringify_elements xs) @ '']''"
| "JSON_stringify (JObj ms) = ''{'' @ join '','' (stringify_members ms) @ ''}''"
| "stringify_elements [] = []"
| "stringify_elements (x # xs) = JSON_stringify x # stringify_elements xs"
| "stringify_members [] = []"
| "stringify_members (m # ms) =
     (json_quote (fst m) @ '':'' @ JSON_stringify (snd m)) # stringify_members ms"

text \<open>
  Reading a property \<^verbatim>\<open>v.name\<close> of a JSON value: \<^verbatim>\<open>null\<close> throws a \<^verbatim>\<open>TypeError\<close>, an
  object gives the member or \<^verbatim>\<open>undefined\<close> (\<open>None\<close>), and for the other values none of
  the names read by the server (\<^verbatim>\<open>width\<close>, \<^verbatim>\<open>height\<close>, \<^verbatim>\<open>type\<close>, ...) is defined.
\<close>

type_synonym error = string

definition get_property :: "json \<Rightarrow> string \<Rightarrow> error + json option" where
  "get_property v name =
     (case v of
        JNull \<Rightarrow> Inl (''Cannot read properties of null (reading '' @ [CHR 0x27] @ name
                       @ [CHR 0x27] @ '')'')
      | JObj ms \<Rightarrow> Inr (map_of ms name)
      | _ \<Rightarrow> Inr None)"

text \<open>Truthiness, as tested by \<^verbatim>\<open>!x\<close> and \<^verbatim>\<open>x || y\<close>; \<open>None\<close> is \<^verbatim>\<open>undefined\<close>.\<close>

fun truthy :: "json option \<Rightarrow> bool" where
  "truthy None = False"
| "truthy (Some JNull) = False"
| "truthy (Some (JBool b)) = b"
| "truthy (Some (JNum i)) = (i \<noteq> 0)"
| "truthy (Some (JStr s)) = (s \<noteq> [])"
| "truthy (Some (JArr xs)) = True"
| "truthy (Some (JObj ms)) = True"

text \<open>The string put into a template literal, \<^verbatim>\<open>`${v}`\<close>.\<close>

fun to_string :: "json \<Rightarrow> string"
  and to_string_elements :: "json list \<Rightarrow> string list" where
  "to_string JNull = ''null''"
| "to_string (JBool b) = (if b then ''true'' else ''false'')"
| "to_string (JNum i) = number_to_string i"
| "to_string (JStr s) = s"
| "to_string (JArr xs) = join '','' (to_string_elements xs)"
| "to_string (JObj ms) = ''[object Object]''"
| "to_string_elements [] = []"
| "to_string_elements (x # xs) =
     (if x = JNull then [] else to_string x) # to_string_elements xs"

subsection \<open>MD5 (\<^verbatim>\<open>crypto.createHash("md5")\<close>, RFC 1321)\<close>

type_synonym byte = "8 word"

definition md5_K :: "32 word list" where
  "md5_K =
    [0xd76aa478, 0xe8c7b756, 0x242070db, 0xc1bdceee, 0xf57c0faf, 0x4787c62a, 0xa8304613,
     0xfd469501, 0x698098d8, 0x8b44f7af, 0xffff5bb1, 0x895cd7be, 0x6b901122, 0xfd987193,
     0xa679438e, 0x49b40821, 0xf61e2562, 0xc040b340, 0x265e5a51, 0xe9b6c7aa, 0xd62f105d,
     0x02441453, 0xd8a1e681, 0xe7d3fbc8, 0x21e1cde6, 0xc33707d6, 0xf4d50d87, 0x455a14ed,
     0xa9e3e905, 0xfcefa3f8, 0x676f02d9, 0x8d2a4c8a, 0xfffa3942, 0x8771f681, 0x6d9d6122,
     0xfde5380c, 0xa4beea44, 0x4bdecfa9, 0xf6bb4b60, 0xbebfbc70, 0x289b7ec6, 0xeaa127fa,
     0xd4ef3085, 0x04881d05, 0xd9d4d039, 0xe6db99e5, 0x1fa27cf8, 0xc4ac5665, 0xf4292244,
     0x432aff97, 0xab9423a7, 0xfc93a039, 0x655b59c3, 0x8f0ccc92, 0xffeff47d, 0x85845dd1,
     0x6fa87e4f, 0xfe2ce6e0, 0xa3014314, 0x4e0811a1, 0xf7537e82, 0xbd3af235, 0x2ad7d2bb,
     0xeb86d391]"

definition md5_s :: "nat list" where
  "md5_s = [7, 12, 17, 22, 7, 12, 17, 22, 7, 12, 17, 22, 7, 12, 17, 22,
            5, 9, 14, 20, 5, 9, 14, 20, 5, 9, 14, 20, 5, 9, 14, 20,
            4, 11, 16, 23, 4, 11, 16, 23, 4, 11, 16, 23, 4, 11, 16, 23,
            6, 10, 15, 21, 6, 10, 15, 21, 6, 10, 15, 21, 6, 10, 15, 21]"

definition rotl32 :: "32 word \<Rightarrow> nat \<Rightarrow> 32 word" where
  "rotl32 x n = push_bit n x OR drop_bit (32 - n) x"

fun le32 :: "byte list \<Rightarrow> 32 word" where
  "le32 [] = 0"
| "le32 (b # bs) = ucast b OR push_bit 8 (le32 bs)"

function chunks :: "nat \<Rightarrow> 'a list \<Rightarrow> 'a list list" where
  "chunks n xs = (if n = 0 \<or> xs = [] then [] else take n xs # chunks n (drop n xs))"
  by pat_completeness auto
termination
  by (relation "measure (\<lambda>(n, xs). length xs)") auto

declare chunks.simps [simp del]

definition le_bytes :: "nat \<Rightarrow> 'a::len word \<Rightarrow> byte list" where
  "le_bytes k w = map (\<lambda>i. ucast (drop_bit (8 * i) w)) [0..<k]"

definition md5_pad :: "byte list \<Rightarrow> byte list" where
  "md5_pad m = m @ [0x80] @ replicate ((119 - length m mod 64) mod 64) 0
                 @ le_bytes 8 (8 * (of_nat (length m) :: 64 word))"

type_synonym md5_state = "32 word \<times> 32 word \<times> 32 word \<times> 32 word"

definition md5_step :: "32 word list \<Rightarrow> nat \<Rightarrow> md5_state \<Rightarrow> md5_state" where
  "md5_step M i st = (case st of (A, B, C, D) \<Rightarrow>
     let (F, g) =
           (if i < 16 then ((B AND C) OR (NOT B AND D), i)
            else if i < 32 then ((D AND B) OR (NOT D AND C), (5 * i + 1) mod 16)
            else if i < 48 then (B XOR C XOR D, (3 * i + 5) mod 16)
            else (C XOR (B OR NOT D), (7 * i) mod 16));
         F' = F + A + md5_K ! i + M ! g
     in (D, B + rotl32 F' (md5_s ! i), B, C))"

definition md5_block :: "md5_state \<Rightarrow> byte list \<Rightarrow> md5_state" where
  "md5_block st blk = (case st of (a0, b0, c0, d0) \<Rightarrow>
     case fold (md5_step (map le32 (chunks 4 blk))) [0..<64] st of
       (A, B, C, D) \<Rightarrow> (a0 + A, b0 + B, c0 + C, d0 + D))"

definition md5 :: "byte list \<Rightarrow> byte list" where
  "md5 m = (case fold (\<lambda>blk st. md5_block st blk) (chunks 64 (md5_pad m))
                   (0x67452301, 0xefcdab89, 0x98badcfe, 0x10325476) of
     (a, b, c, d) \<Rightarrow> concat (map (le_bytes 4) [a, b, c, d]))"

definition hex :: "byte list \<Rightarrow> string" where
  "hex bs = concat (map (\<lambda>b. [hex_digit (unat b div 16), hex_digit (unat b mod 16)]) bs)"

text \<open>\<^verbatim>\<open>hash.update(string)\<close> hashes the UTF-8 encoding of the string.\<close>

definition utf8 :: "string \<Rightarrow> byte list" where
  "utf8 s = concat (map (\<lambda>c. let n = (of_char c :: nat) in
                              if n < 128 then [of_nat n]
                              else [of_nat (192 + n div 64), of_nat (128 + n mod 64)]) s)"

subsection \<open>Utility functions\<close>

definition generateCacheKey :: "string \<Rightarrow> json \<Rightarrow> string" where
  "generateCacheKey html options =
     (let content = html @ JSON_stringify options in hex (md5 (utf8 content)))"

subsection \<open>Configuration\<close>

text \<open>
  \<^verbatim>\<open>parseInt(process.env.X) || d\<close>: the default \<open>d\<close> is taken when the variable is unset
  or not a number (\<open>None\<close>) and when it parses to zero.
\<close>

definition int_setting :: "int option \<Rightarrow> int \<Rightarrow> int" where
  "int_setting v d = (case v of None \<Rightarrow> d | Some n \<Rightarrow> if n = 0 then d else n)"

record config =
  MAX_CONCURRENT :: int
  CACHE_TTL :: int
  PUPPETEER_EXECUTABLE_PATH :: "string option"

definition read_config :: "int option \<Rightarrow> int option \<Rightarrow> string option \<Rightarrow> config" where
  "read_config max_concurrent cache_ttl exe =
     \<lparr>MAX_CONCURRENT = int_setting max_concurrent 5,
      CACHE_TTL = int_setting cache_ttl 300000,
      PUPPETEER_EXECUTABLE_PATH = exe\<rparr>"

definition imageOptions :: "(string \<times> json) list" where
  "imageOptions =
     [(''width'', JNum 1920), (''height'', JNum 1080), (''deviceScaleFactor'', JNum 1),
      (''fullPage'', JBool True), (''type'', JStr ''png''), (''quality'', JNum 90),
      (''timeout'', JNum 25000)]"

subsection \<open>The JavaScript \<^verbatim>\<open>Map\<close> holding the cache\<close>

text \<open>
  A \<^verbatim>\<open>Map\<close> keeps its entries in insertion order; \<^verbatim>\<open>set\<close> on a key that is present
  replaces the value in place, on a new key it appends.
\<close>

definition Map_has :: "(string \<times> 'v) list \<Rightarrow> string \<Rightarrow> bool" where
  "Map_has m k = (map_of m k \<noteq> None)"

definition Map_get :: "(string \<times> 'v) list \<Rightarrow> string \<Rightarrow> 'v option" where
  "Map_get m k = map_of m k"

fun Map_set :: "(string \<times> 'v) list \<Rightarrow> string \<Rightarrow> 'v \<Rightarrow> (string \<times> 'v) list" where
  "Map_set [] k v = [(k, v)]"
| "Map_set (e # m) k v = (if fst e = k then (k, v) # m else e # Map_set m k v)"

definition Map_delete :: "(string \<times> 'v) list \<Rightarrow> string \<Rightarrow> (string \<times> 'v) list" where
  "Map_delete m k = filter (\<lambda>e. fst e \<noteq> k) m"

record cache_entry =
  buffer :: "byte list"
  timestamp :: int

subsection \<open>State, external calls and their trace\<close>

record launchOptions =
  headless :: string
  args :: "string list"
  executablePath :: "string option"

datatype event =
    ActiveInc
  | ActiveDec
  | Launch launchOptions
  | NewPage nat
  | SetViewport "json option" "json option" "json option"
  | SetContent string "json option"
  | Screenshot "(string \<times> json option) list"
  | PageClose nat
  | CacheClear
  | ServerClose
  | BrowserClose nat
  | ProcessExit int

record server =
  imageCache :: "(string \<times> cache_entry) list"
  activeRequests :: int
  browser :: "nat option"
  trace :: "event list"

definition initial :: server where
  "initial = \<lparr>imageCache = [], activeRequests = 0, browser = None, trace = []\<rparr>"

definition emit :: "event \<Rightarrow> server \<Rightarrow> server" where
  "emit ev s = s\<lparr>trace := trace s @ [ev]\<rparr>"

subsection \<open>Launch options\<close>

definition full_args :: "string list" where
  "full_args =
     [''--no-sandbox'', ''--disable-setuid-sandbox'', ''--disable-dev-shm-usage'',
      ''--disable-gpu'', ''--no-first-run'', ''--no-zygote'', ''--single-process'',
      ''--disable-extensions'', ''--disable-default-apps'', ''--disable-web-security'',
      ''--disable-features=VizDisplayCompositor'', ''--disable-background-timer-throttling'',
      ''--disable-renderer-backgrounding'', ''--disable-backgrounding-occluded-windows'',
      ''--disable-ipc-flooding-protection'',
      ''--enable-features=NetworkService,NetworkServiceInProcess'',
      ''--force-color-profile=srgb'', ''--metrics-recording-only'', ''--use-mock-keychain'']"

definition minimal_args :: "string list" where
  "minimal_args =
     [''--no-sandbox'', ''--disable-setuid-sandbox'', ''--disable-dev-shm-usage'',
      ''--disable-gpu'', ''--single-process'']"

text \<open>
  The options of the first launch (lines 65 to 101): the custom executable path is used
  when the variable is set, not empty and not \<^verbatim>\<open>/usr/bin/chromium-browser\<close>.
\<close>

definition first_launchOptions :: "config \<Rightarrow> launchOptions" where
  "first_launchOptions cfg =
     \<lparr>headless = ''new'', args = full_args,
      executablePath =
        (case PUPPETEER_EXECUTABLE_PATH cfg of
           None \<Rightarrow> None
         | Some p \<Rightarrow> if p \<noteq> [] \<and> p \<noteq> ''/usr/bin/chromium-browser'' then Some p else None)\<rparr>"

text \<open>
  The options of the retry (lines 111 to 119): the same object with \<^verbatim>\<open>args\<close> replaced and
  \<^verbatim>\<open>executablePath\<close> deleted.
\<close>

definition retry_launchOptions :: "config \<Rightarrow> launchOptions" where
  "retry_launchOptions cfg = (first_launchOptions cfg)\<lparr>args := minimal_args, executablePath := None\<rparr>"

subsection \<open>Suspension points\<close>

text \<open>
  The handlers run on one thread; at an \<^verbatim>\<open>await\<close> of an external call other code of the
  server can run before the awaiting function resumes. What can run there is modelled as a
  list of interleaved operations:
  \<^item> a \<^verbatim>\<open>POST /cache-clear\<close> request, handled from start to end;
  \<^item> a tick of the \<^verbatim>\<open>setInterval(cleanupCache, 300000)\<close> timer at a given clock reading;
  \<^item> the steps of another, overlapping call of \<^verbatim>\<open>initBrowser\<close> (from the start-up
    callback or from another request): it begins, that is it tests \<^verbatim>\<open>browser\<close> and, when
    there is none, calls \<^verbatim>\<open>puppeteer.launch\<close>; its first launch fails and it launches again
    with the retry options; one of its launches resolves and it stores the handle in
    \<^verbatim>\<open>browser\<close>, whatever is stored there.
\<close>

datatype sync_op =
    CacheClearRequest
  | CleanupTimer int
  | LaunchBegins
  | LaunchRetries
  | LaunchResolves nat

datatype await_point =
    AwaitLaunch
  | AwaitRetryLaunch
  | AwaitNewPage
  | AwaitSetViewport
  | AwaitSetContent
  | AwaitScreenshot
  | AwaitPageClose

text \<open>How a promise of \<^verbatim>\<open>browser.close()\<close> ends: resolved, rejected with a message, or never.\<close>

datatype settled = Resolved | Rejected error | Pending

text \<open>
  The environment of one request: the outcome of each external call (\<open>Inl\<close> or \<open>Some\<close>
  is the message of the error thrown), the readings of \<^verbatim>\<open>Date.now()\<close> at the cache lookup
  and at the cache store, what runs at each suspension point, and the value of the
  template literal \<^verbatim>\<open>testHtml\<close> of \<^verbatim>\<open>GET /test-image\<close> (which embeds the current time).
\<close>

record env =
  launch_result :: "launchOptions \<Rightarrow> error + nat"
  newPage_result :: "error + nat"
  setViewport_result :: "error option"
  setContent_result :: "error option"
  screenshot_result :: "error + byte list"
  page_close_result :: "error option"
  browser_close_result :: settled
  now_lookup :: int
  now_store :: int
  interleaved :: "await_point \<Rightarrow> sync_op list"
  testHtml :: string

definition cleanupCache :: "config \<Rightarrow> int \<Rightarrow> server \<Rightarrow> server" where
  "cleanupCache cfg now s =
     s\<lparr>imageCache :=
          fold (\<lambda>e c. if now - timestamp (snd e) > CACHE_TTL cfg then Map_delete c (fst e) else c)
               (imageCache s) (imageCache s)\<rparr>"

definition imageCache_clear :: "server \<Rightarrow> server" where
  "imageCache_clear s = emit CacheClear (s\<lparr>imageCache := []\<rparr>)"

fun run_sync_op :: "config \<Rightarrow> sync_op \<Rightarrow> server \<Rightarrow> server" where
  "run_sync_op cfg CacheClearRequest s = imageCache_clear s"
| "run_sync_op cfg (CleanupTimer now) s = cleanupCache cfg now s"
| "run_sync_op cfg LaunchBegins s =
     (case browser s of
        Some b \<Rightarrow> s
      | None \<Rightarrow> emit (Launch (first_launchOptions cfg)) s)"
| "run_sync_op cfg LaunchRetries s = emit (Launch (retry_launchOptions cfg)) s"
| "run_sync_op cfg (LaunchResolves b) s = s\<lparr>browser := Some b\<rparr>"

definition await :: "config \<Rightarrow> env \<Rightarrow> await_point \<Rightarrow> event \<Rightarrow> server \<Rightarrow> server" where
  "await cfg env p ev s = fold (run_sync_op cfg) (interleaved env p) (emit ev s)"

subsection \<open>Browser instance management\<close>

text \<open>
  \<^verbatim>\<open>initBrowser\<close> tests \<^verbatim>\<open>browser\<close>, awaits the launch and then stores the handle: between
  the test and the store the interleaved operations run, among them the steps of
  overlapping calls.
\<close>

definition initBrowser :: "config \<Rightarrow> env \<Rightarrow> server \<Rightarrow> (error + nat) \<times> server" where
  "initBrowser cfg env s =
     (case browser s of
        Some b \<Rightarrow> (Inr b, s)
      | None \<Rightarrow>
          let launchOptions = first_launchOptions cfg;
              s1 = await cfg env AwaitLaunch (Launch launchOptions) s
          in case launch_result env launchOptions of
               Inr b \<Rightarrow> (Inr b, s1\<lparr>browser := Some b\<rparr>)
             | Inl err \<Rightarrow>
                 let retryOptions = retry_launchOptions cfg;
                     s2 = await cfg env AwaitRetryLaunch (Launch retryOptions) s1
                 in case launch_result env retryOptions of
                      Inr b \<Rightarrow> (Inr b, s2\<lparr>browser := Some b\<rparr>)
                    | Inl err2 \<Rightarrow> (Inl err2, s2))"


subsection \<open>Optimized image generation with caching\<close>

text \<open>
  The own enumerable properties copied by the spread \<^verbatim>\<open>{ ...imageOptions, ...options }\<close>:
  the members of an object, the indexed characters of a string and the indexed elements
  of an array; \<^verbatim>\<open>null\<close>, booleans and numbers contribute nothing.
\<close>

definition own_properties :: "json \<Rightarrow> (string \<times> json) list" where
  "own_properties v =
     (case v of
        JObj ms \<Rightarrow> ms
      | JArr xs \<Rightarrow> zip (map decimal [0..<length xs]) xs
      | JStr str \<Rightarrow> zip (map decimal [0..<length str]) (map (\<lambda>c. JStr [c]) str)
      | _ \<Rightarrow> [])"

definition spread :: "(string \<times> json) list \<Rightarrow> json \<Rightarrow> (string \<times> json) list" where
  "spread defaults v = fold (\<lambda>m obj. Map_set obj (fst m) (snd m)) (own_properties v) defaults"

text \<open>The \<^verbatim>\<open>try\<close> block of \<^verbatim>\<open>generateImageOptimized\<close> (viewport, content, screenshot, store).\<close>

definition render_try ::
  "config \<Rightarrow> env \<Rightarrow> string \<Rightarrow> (string \<times> json) list \<Rightarrow> string \<Rightarrow> server
     \<Rightarrow> (error + byte list) \<times> server" where
  "render_try cfg env html finalOptions cacheKey s =
     (let s1 = await cfg env AwaitSetViewport
                 (SetViewport (map_of finalOptions ''width'') (map_of finalOptions ''height'')
                    (map_of finalOptions ''deviceScaleFactor'')) s
      in case setViewport_result env of
           Some err \<Rightarrow> (Inl err, s1)
         | None \<Rightarrow>
             let s2 = await cfg env AwaitSetContent
                        (SetContent html (map_of finalOptions ''timeout'')) s1
             in case setContent_result env of
                  Some err \<Rightarrow> (Inl err, s2)
                | None \<Rightarrow>
                    let screenshotOptions =
                          [(''fullPage'', map_of finalOptions ''fullPage''),
                           (''type'', map_of finalOptions ''type'')]
                          @ (if map_of finalOptions ''type'' = Some (JStr ''jpeg'')
                             then [(''quality'', map_of finalOptions ''quality'')] else []);
                        s3 = await cfg env AwaitScreenshot (Screenshot screenshotOptions) s2
                    in case screenshot_result env of
                         Inl err \<Rightarrow> (Inl err, s3)
                       | Inr imageBuffer \<Rightarrow>
                           (Inr imageBuffer,
                            s3\<lparr>imageCache :=
                                 Map_set (imageCache s3) cacheKey
                                   \<lparr>buffer = imageBuffer, timestamp = now_store env\<rparr>\<rparr>))"

text \<open>
  The part of \<^verbatim>\<open>generateImageOptimized\<close> after the cache check: browser, page, the
  \<^verbatim>\<open>try\<close> block and the \<^verbatim>\<open>finally\<close> that closes the page. An error thrown by
  \<^verbatim>\<open>page.close()\<close> replaces the outcome of the \<^verbatim>\<open>try\<close> block.
\<close>

definition render_page ::
  "config \<Rightarrow> env \<Rightarrow> string \<Rightarrow> json \<Rightarrow> string \<Rightarrow> server \<Rightarrow> (error + byte list) \<times> server" where
  "render_page cfg env html options cacheKey s =
     (let finalOptions = spread imageOptions options
      in case initBrowser cfg env s of
           (Inl err, s1) \<Rightarrow> (Inl err, s1)
         | (Inr browserInstance, s1) \<Rightarrow>
             let s2 = await cfg env AwaitNewPage (NewPage browserInstance) s1
             in case newPage_result env of
                  Inl err \<Rightarrow> (Inl err, s2)
                | Inr page \<Rightarrow>
                    (case render_try cfg env html finalOptions cacheKey s2 of
                       (outcome, s3) \<Rightarrow>
                         let s4 = await cfg env AwaitPageClose (PageClose page) s3
                         in case page_close_result env of
                              Some err \<Rightarrow> (Inl err, s4)
                            | None \<Rightarrow> (outcome, s4)))"

definition generateImageOptimized ::
  "config \<Rightarrow> env \<Rightarrow> string \<Rightarrow> json \<Rightarrow> server \<Rightarrow> (error + byte list) \<times> server" where
  "generateImageOptimized cfg env html options s =
     (let cacheKey = generateCacheKey html options
      in if Map_has (imageCache s) cacheKey
         then (case Map_get (imageCache s) cacheKey of
                 Some cached \<Rightarrow>
                   if now_lookup env - timestamp cached < CACHE_TTL cfg
                   then (Inr (buffer cached), s)
                   else render_page cfg env html options cacheKey
                          (s\<lparr>imageCache := Map_delete (imageCache s) cacheKey\<rparr>)
               | None \<Rightarrow> render_page cfg env html options cacheKey s)
         else render_page cfg env html options cacheKey s)"

subsection \<open>HTTP surface\<close>

text \<open>
  A request carries its HTTP verb and its path and, for \<^verbatim>\<open>POST /html-to-image\<close>, the two fields
  read from the parsed body: \<^verbatim>\<open>html\<close> (absent or a string) and \<^verbatim>\<open>options\<close> (absent or any
  JSON value). These are the requests whose body \<^verbatim>\<open>express.json\<close> has accepted (at most
  \<^verbatim>\<open>50mb\<close>); a larger body is refused by the parser before any middleware of the server
  runs.
\<close>

record request =
  http_method :: string
  path :: string
  body_html :: "string option"
  body_options :: "json option"

datatype payload = Image "byte list" | Json "(string \<times> json) list" | Text string | NotFound

record response =
  status :: nat
  headers :: "(string \<times> string) list"
  payload :: payload

text \<open>The headers set by the first middleware on every response.\<close>

definition security_headers :: "(string \<times> string) list" where
  "security_headers =
     [(''Cache-Control'', ''no-cache''), (''X-Content-Type-Options'', ''nosniff''),
      (''X-Frame-Options'', ''DENY''), (''X-XSS-Protection'', ''1; mode=block'')]"

definition json_response :: "nat \<Rightarrow> (string \<times> json) list \<Rightarrow> response" where
  "json_response code members =
     \<lparr>status = code, headers = security_headers, payload = Json members\<rparr>"

text \<open>Request throttling middleware: \<open>Some\<close> is the 429 response, \<open>None\<close> is \<^verbatim>\<open>next()\<close>.\<close>

definition throttle :: "config \<Rightarrow> request \<Rightarrow> server \<Rightarrow> response option" where
  "throttle cfg req s =
     (if activeRequests s \<ge> MAX_CONCURRENT cfg \<and> path req = ''/html-to-image''
      then Some (json_response 429
                   [(''error'', JStr ''Server busy''),
                    (''message'',
                     JStr ''Too many concurrent requests. Please retry in a few seconds.''),
                    (''retryAfter'', JNum 3)])
      else None)"

definition get_root :: "config \<Rightarrow> server \<Rightarrow> response \<times> server" where
  "get_root cfg s =
     (json_response 200
        [(''message'', JStr ''High-Performance HTML to Image Server''),
         (''version'', JStr ''2.1.0''),
         (''engine'', JStr ''puppeteer''),
         (''status'',
          JObj [(''activeRequests'', JNum (activeRequests s)),
                (''maxConcurrent'', JNum (MAX_CONCURRENT cfg)),
                (''cacheSize'', JNum (int (length (imageCache s))))]),
         (''endpoints'',
          JObj [(''html-to-image'', JStr ''POST /html-to-image - Convert HTML to Image (cached)''),
                (''test'', JStr ''GET /test-image - Generate test image''),
                (''health'', JStr ''GET / - Health check and status''),
                (''cache-clear'', JStr ''POST /cache-clear - Clear image cache'')])],
      s)"

definition post_cache_clear :: "server \<Rightarrow> response \<times> server" where
  "post_cache_clear s =
     (let cacheSize = int (length (imageCache s))
      in (json_response 200
            [(''message'', JStr ''Cache cleared successfully''),
             (''clearedEntries'', JNum cacheSize)],
          imageCache_clear s))"

text \<open>\<^verbatim>\<open>activeRequests++\<close> on entry and \<^verbatim>\<open>Math.max(0, activeRequests - 1)\<close> in \<^verbatim>\<open>finally\<close>.\<close>

definition request_enter :: "server \<Rightarrow> server" where
  "request_enter s = emit ActiveInc (s\<lparr>activeRequests := activeRequests s + 1\<rparr>)"

definition request_exit :: "server \<Rightarrow> server" where
  "request_exit s = emit ActiveDec (s\<lparr>activeRequests := max 0 (activeRequests s - 1)\<rparr>)"

text \<open>
  \<^verbatim>\<open>res.setHeader\<close> throws on a value with a character outside tab, \<^verbatim>\<open>0x20\<close> to \<^verbatim>\<open>0x7e\<close>
  and \<^verbatim>\<open>0x80\<close> to \<^verbatim>\<open>0xff\<close>. Of the values set by the handlers only the file name built
  from \<^verbatim>\<open>options.type\<close> can contain one.
\<close>

definition valid_header_char :: "char \<Rightarrow> bool" where
  "valid_header_char c =
     (let n = (of_char c :: nat) in n = 0x09 \<or> (0x20 \<le> n \<and> n \<le> 0x7E) \<or> 0x80 \<le> n)"

definition checkInvalidHeaderChar :: "string \<Rightarrow> bool" where
  "checkInvalidHeaderChar v = (\<not> list_all valid_header_char v)"

definition image_response ::
  "string \<Rightarrow> string \<Rightarrow> byte list \<Rightarrow> (string \<times> string) list \<Rightarrow> response" where
  "image_response contentType disposition imageBuffer extra =
     \<lparr>status = 200,
      headers = security_headers
        @ [(''Content-Type'', contentType), (''Content-Disposition'', disposition),
           (''Content-Length'', decimal (length imageBuffer))] @ extra,
      payload = Image imageBuffer\<rparr>"

definition failed_response :: "error \<Rightarrow> response" where
  "failed_response message =
     json_response 500 [(''error'', JStr ''Failed to generate image''), (''details'', JStr message)]"

text \<open>The \<^verbatim>\<open>try\<close>/\<^verbatim>\<open>catch\<close> of the \<^verbatim>\<open>POST /html-to-image\<close> handler.\<close>

definition html_to_image_body ::
  "config \<Rightarrow> env \<Rightarrow> request \<Rightarrow> server \<Rightarrow> response \<times> server" where
  "html_to_image_body cfg env req s =
     (let options = (case body_options req of None \<Rightarrow> JObj [] | Some v \<Rightarrow> v)
      in case body_html req of
           None \<Rightarrow>
             (json_response 400
                [(''error'', JStr ''HTML content is required''),
                 (''usage'', JStr (''Send JSON with '' @ [CHR 0x27] @ ''html'' @ [CHR 0x27]
                                    @ '' field containing HTML content''))], s)
         | Some html \<Rightarrow>
             if html = [] then
               (json_response 400
                  [(''error'', JStr ''HTML content is required''),
                   (''usage'', JStr (''Send JSON with '' @ [CHR 0x27] @ ''html'' @ [CHR 0x27]
                                      @ '' field containing HTML content''))], s)
             else if length html > 10 * 1024 * 1024 then
               (json_response 413
                  [(''error'', JStr ''HTML content too large''), (''maxSize'', JStr ''10MB'')], s)
             else
               (case generateImageOptimized cfg env html options s of
                  (Inl err, s1) \<Rightarrow> (failed_response err, s1)
                | (Inr imageBuffer, s1) \<Rightarrow>
                    (case get_property options ''type'' of
                       Inl err \<Rightarrow> (failed_response err, s1)
                     | Inr t \<Rightarrow>
                         let format = (if truthy t then t else map_of imageOptions ''type'');
                             contentType =
                               (if format = Some (JStr ''jpeg'') then ''image/jpeg''
                                else if format = Some (JStr ''webp'') then ''image/webp''
                                else ''image/png'');
                             disposition =
                               ''attachment; filename='' @ [CHR 0x22] @ ''screenshot.''
                                 @ (case format of Some v \<Rightarrow> to_string v
                                                 | None \<Rightarrow> ''undefined'')
                                 @ [CHR 0x22]
                         in if checkInvalidHeaderChar disposition then
                              (failed_response
                                 (''Invalid character in header content ['' @ [CHR 0x22]
                                    @ ''Content-Disposition'' @ [CHR 0x22] @ '']''), s1)
                            else
                              (image_response contentType disposition imageBuffer
                                 [(''X-Cache-Status'',
                                   if Map_has (imageCache s1) (generateCacheKey html options)
                                   then ''HIT'' else ''MISS'')],
                               s1))))"

definition post_html_to_image ::
  "config \<Rightarrow> env \<Rightarrow> request \<Rightarrow> server \<Rightarrow> response \<times> server" where
  "post_html_to_image cfg env req s =
     (case html_to_image_body cfg env req (request_enter s) of
        (res, s1) \<Rightarrow> (res, request_exit s1))"

definition get_test_image :: "config \<Rightarrow> env \<Rightarrow> server \<Rightarrow> response \<times> server" where
  "get_test_image cfg env s =
     (case generateImageOptimized cfg env (testHtml env) (JObj []) (request_enter s) of
        (Inr imageBuffer, s1) \<Rightarrow>
          (image_response ''image/png''
             (''attachment; filename='' @ [CHR 0x22] @ ''performance-test.png'' @ [CHR 0x22])
             imageBuffer [],
           request_exit s1)
      | (Inl err, s1) \<Rightarrow>
          (json_response 500 [(''error'', JStr ''Test failed''), (''details'', JStr err)],
           request_exit s1))"

text \<open>
  Routing as express does it by default: a route matches a path without regard to the case
  of the ASCII letters and with or without one trailing slash; a route registered with
  \<^verbatim>\<open>app.get\<close> also serves \<^verbatim>\<open>HEAD\<close>; a request with verb \<^verbatim>\<open>OPTIONS\<close> on the path of a
  route is answered by express with the verbs of the route. The throttling middleware,
  in contrast, compares \<^verbatim>\<open>req.path\<close> with \<^verbatim>\<open>===\<close>.
\<close>

definition lower_ascii :: "char \<Rightarrow> char" where
  "lower_ascii c =
     (case map_of (zip ''ABCDEFGHIJKLMNOPQRSTUVWXYZ'' ''abcdefghijklmnopqrstuvwxyz'') c of
        Some l \<Rightarrow> l
      | None \<Rightarrow> c)"

definition route_matches :: "string \<Rightarrow> string \<Rightarrow> bool" where
  "route_matches route p =
     (let q = map lower_ascii p
      in q = route \<or> (route \<noteq> ''/'' \<and> q = route @ ''/''))"

definition serves_get :: "string \<Rightarrow> bool" where
  "serves_get verb = (verb = ''GET'' \<or> verb = ''HEAD'')"

definition options_response :: "string \<Rightarrow> response" where
  "options_response allow =
     \<lparr>status = 200, headers = security_headers @ [(''Allow'', allow)], payload = Text allow\<rparr>"

text \<open>The middleware chain and the routes, in the order of registration.\<close>

definition handle_request :: "config \<Rightarrow> env \<Rightarrow> request \<Rightarrow> server \<Rightarrow> response \<times> server" where
  "handle_request cfg env req s =
     (case throttle cfg req s of
        Some busy \<Rightarrow> (busy, s)
      | None \<Rightarrow>
          if serves_get (http_method req) \<and> route_matches ''/'' (path req)
            then get_root cfg s
          else if http_method req = ''POST'' \<and> route_matches ''/cache-clear'' (path req)
            then post_cache_clear s
          else if http_method req = ''POST'' \<and> route_matches ''/html-to-image'' (path req)
            then post_html_to_image cfg env req s
          else if serves_get (http_method req) \<and> route_matches ''/test-image'' (path req)
            then get_test_image cfg env s
          else if http_method req = ''OPTIONS''
                  \<and> (route_matches ''/'' (path req) \<or> route_matches ''/test-image'' (path req))
            then (options_response ''GET,HEAD'', s)
          else if http_method req = ''OPTIONS''
                  \<and> (route_matches ''/cache-clear'' (path req)
                       \<or> route_matches ''/html-to-image'' (path req))
            then (options_response ''POST'', s)
          else (\<lparr>status = 404, headers = security_headers, payload = NotFound\<rparr>, s))"

text \<open>Requests handled one after the other, each to completion with its own environment.\<close>

fun run_requests :: "config \<Rightarrow> (env \<times> request) list \<Rightarrow> server \<Rightarrow> server" where
  "run_requests cfg [] s = s"
| "run_requests cfg (r # rs) s = run_requests cfg rs (snd (handle_request cfg (fst r) (snd r) s))"

subsection \<open>Graceful shutdown\<close>

text \<open>
  The handlers of \<^verbatim>\<open>SIGTERM\<close> and \<^verbatim>\<open>SIGINT\<close> call \<^verbatim>\<open>server.close\<close> with a callback. The
  server stops accepting connections at once and calls the callback when every open
  connection has ended, which is later, or never: the handler and the callback are two
  functions, and the callback runs in the state the server has when it is called.
\<close>

datatype signal = SIGTERM | SIGINT

fun on_signal :: "signal \<Rightarrow> server \<Rightarrow> server" where
  "on_signal SIGTERM s = emit ServerClose s"
| "on_signal SIGINT s = emit ServerClose s"

text \<open>
  The callback clears the cache, awaits \<^verbatim>\<open>browser.close()\<close> when there is a handle, and
  calls \<^verbatim>\<open>process.exit(0)\<close>. Nothing catches a rejection of \<^verbatim>\<open>browser.close()\<close> and nothing
  bounds its time: when it rejects or never settles, \<^verbatim>\<open>process.exit(0)\<close> is not reached.
\<close>

definition close_callback :: "env \<Rightarrow> server \<Rightarrow> server" where
  "close_callback env s =
     (let s1 = imageCache_clear s
      in case browser s1 of
           Some b \<Rightarrow>
             (case browser_close_result env of
                Resolved \<Rightarrow> emit (ProcessExit 0) (emit (BrowserClose b) s1)
              | Rejected err \<Rightarrow> emit (BrowserClose b) s1
              | Pending \<Rightarrow> emit (BrowserClose b) s1)
         | None \<Rightarrow> emit (ProcessExit 0) s1)"

subsection \<open>Observations on the trace\<close>

fun launch_of :: "event \<Rightarrow> launchOptions list" where
  "launch_of (Launch opts) = [opts]"
| "launch_of _ = []"

definition launches :: "event list \<Rightarrow> launchOptions list" where
  "launches evs = concat (map launch_of evs)"


fun is_counter_event :: "event \<Rightarrow> bool" where
  "is_counter_event ActiveInc = True"
| "is_counter_event ActiveDec = True"
| "is_counter_event _ = False"

subsection \<open>A configuration and an environment for concrete runs\<close>

text \<open>No variable set: at most 5 concurrent requests, entries live 300000 ms.\<close>

definition default_config :: config where
  "default_config = read_config None None None"

text \<open>
  Every external call succeeds, the screenshot is the four bytes \<^verbatim>\<open>89 50 4E 47\<close>, the
  clock reads 1000 at the lookup and 1200 at the store, and nothing else runs meanwhile.
\<close>

definition calm_env :: env where
  "calm_env =
     \<lparr>launch_result = (\<lambda>opts. Inr 1),
      newPage_result = Inr 7,
      setViewport_result = None,
      setContent_result = None,
      screenshot_result = Inr [0x89, 0x50, 0x4E, 0x47],
      page_close_result = None,
      browser_close_result = Resolved,
      now_lookup = 1000,
      now_store = 1200,
      interleaved = (\<lambda>p. []),
      testHtml = ''<html><body>test</body></html>''\<rparr>"

definition post_request :: "string \<Rightarrow> json option \<Rightarrow> request" where
  "post_request html options =
     \<lparr>http_method = ''POST'', path = ''/html-to-image'', body_html = Some html,
      body_options = options\<rparr>"

text \<open>
  A state in which the image of \<^verbatim>\<open><h1>x</h1>\<close> with default options was stored at clock
  reading 1000 and the browser is running.
\<close>

definition cached_state :: server where
  "cached_state =
     \<lparr>imageCache = [(generateCacheKey ''<h1>x</h1>'' (JObj []),
                      \<lparr>buffer = [1, 2, 3], timestamp = 1000\<rparr>)],
      activeRequests = 0, browser = Some 1, trace = []\<rparr>"

text \<open>A string of 10 MB and one character.\<close>

definition oversized_html :: string where
  "oversized_html = replicate (10 * 1024 * 1024 + 1) (CHR ''a'')"


text \<open>An environment in which a \<^verbatim>\<open>POST /cache-clear\<close> is handled while \<^verbatim>\<open>page.close()\<close> is awaited.\<close>

definition clear_during_close_env :: env where
  "clear_during_close_env =
     calm_env\<lparr>interleaved := (\<lambda>p. if p = AwaitPageClose then [CacheClearRequest] else [])\<rparr>"

section \<open>Properties\<close>

subsection \<open>The trace and the counter across suspension points\<close>

lemma trace_emit [simp]: "trace (emit ev s) = trace s @ [ev]"
  and imageCache_emit [simp]: "imageCache (emit ev s) = imageCache s"
  and activeRequests_emit [simp]: "activeRequests (emit ev s) = activeRequests s"
  and browser_emit [simp]: "browser (emit ev s) = browser s"
  by (simp_all add: emit_def)

lemma run_sync_op_activeRequests [simp]:
  "activeRequests (run_sync_op cfg op s) = activeRequests s"
  by (cases op) (simp_all add: imageCache_clear_def cleanupCache_def split: option.splits)

lemma fold_sync_activeRequests [simp]:
  "activeRequests (fold (run_sync_op cfg) ops s) = activeRequests s"
  by (induction ops arbitrary: s) simp_all

lemma await_activeRequests [simp]:
  "activeRequests (await cfg env p ev s) = activeRequests s"
  by (simp add: await_def)

text \<open>The interleaved operations record cache clears and launches only.\<close>

lemma filter_trace_run_sync_op:
  assumes "\<not> P CacheClear" and "\<And>opts. \<not> P (Launch opts)"
  shows "filter P (trace (run_sync_op cfg op s)) = filter P (trace s)"
  using assms
  by (cases op) (simp_all add: imageCache_clear_def cleanupCache_def split: option.splits)

lemma filter_trace_fold_sync:
  assumes "\<not> P CacheClear" and "\<And>opts. \<not> P (Launch opts)"
  shows "filter P (trace (fold (run_sync_op cfg) ops s)) = filter P (trace s)"
  by (induction ops arbitrary: s) (simp_all add: filter_trace_run_sync_op [OF assms])

lemma counter_events_await [simp]:
  "is_counter_event ev = False \<Longrightarrow>
   filter is_counter_event (trace (await cfg env p ev s)) = filter is_counter_event (trace s)"
  by (simp add: await_def filter_trace_fold_sync)

text \<open>Operations on the cache leave the handle alone and launch nothing.\<close>

lemma launches_append [simp]: "launches (xs @ ys) = launches xs @ launches ys"
  by (simp add: launches_def)




lemma initBrowser_counter [simp]:
  "activeRequests (snd (initBrowser cfg env s)) = activeRequests s"
  "filter is_counter_event (trace (snd (initBrowser cfg env s))) = filter is_counter_event (trace s)"
  by (simp_all add: initBrowser_def Let_def split: option.splits sum.splits)

lemma render_try_counter [simp]:
  "activeRequests (snd (render_try cfg env html fo key s)) = activeRequests s"
  "filter is_counter_event (trace (snd (render_try cfg env html fo key s)))
     = filter is_counter_event (trace s)"
  by (simp_all add: render_try_def Let_def split: option.splits sum.splits)

lemma render_page_counter [simp]:
  "activeRequests (snd (render_page cfg env html opts key s)) = activeRequests s"
  "filter is_counter_event (trace (snd (render_page cfg env html opts key s)))
     = filter is_counter_event (trace s)"
proof -
  obtain r1 s1 where ib: "initBrowser cfg env s = (r1, s1)" by (cases "initBrowser cfg env s")
  have a1: "activeRequests s1 = activeRequests s"
    and t1: "filter is_counter_event (trace s1) = filter is_counter_event (trace s)"
    using initBrowser_counter [of cfg env s] ib by simp_all
  obtain r3 s3 where rt: "render_try cfg env html (spread imageOptions opts) key
        (await cfg env AwaitNewPage (NewPage (case r1 of Inr b \<Rightarrow> b | Inl e \<Rightarrow> 0)) s1) = (r3, s3)"
    by (cases "render_try cfg env html (spread imageOptions opts) key
        (await cfg env AwaitNewPage (NewPage (case r1 of Inr b \<Rightarrow> b | Inl e \<Rightarrow> 0)) s1)")
  have a3: "activeRequests s3 = activeRequests s"
    and t3: "filter is_counter_event (trace s3) = filter is_counter_event (trace s)"
    using render_try_counter [of cfg env html "spread imageOptions opts" key
        "await cfg env AwaitNewPage (NewPage (case r1 of Inr b \<Rightarrow> b | Inl e \<Rightarrow> 0)) s1"] rt a1 t1
    by simp_all
  show "activeRequests (snd (render_page cfg env html opts key s)) = activeRequests s"
    using ib rt a1 a3
    by (cases r1) (simp_all add: render_page_def Let_def split: option.splits sum.splits)
  show "filter is_counter_event (trace (snd (render_page cfg env html opts key s)))
     = filter is_counter_event (trace s)"
    using ib rt t1 t3
    by (cases r1) (simp_all add: render_page_def Let_def split: option.splits sum.splits)
qed

lemma generateImageOptimized_counter [simp]:
  "activeRequests (snd (generateImageOptimized cfg env html opts s)) = activeRequests s"
  "filter is_counter_event (trace (snd (generateImageOptimized cfg env html opts s)))
     = filter is_counter_event (trace s)"
  by (simp_all add: generateImageOptimized_def Let_def split: option.splits)

lemma request_enter_simps [simp]:
  "activeRequests (request_enter s) = activeRequests s + 1"
  "trace (request_enter s) = trace s @ [ActiveInc]"
  "imageCache (request_enter s) = imageCache s"
  "browser (request_enter s) = browser s"
  by (simp_all add: request_enter_def)

lemma request_exit_simps [simp]:
  "activeRequests (request_exit s) = max 0 (activeRequests s - 1)"
  "trace (request_exit s) = trace s @ [ActiveDec]"
  "imageCache (request_exit s) = imageCache s"
  "browser (request_exit s) = browser s"
  by (simp_all add: request_exit_def)

lemma generateImageOptimized_counterD:
  assumes "generateImageOptimized cfg env html opts s = (r, s1)"
  shows "activeRequests s1 = activeRequests s"
    and "filter is_counter_event (trace s1) = filter is_counter_event (trace s)"
  using generateImageOptimized_counter [of cfg env html opts s] assms by simp_all

lemma html_to_image_body_counter [simp]:
  "activeRequests (snd (html_to_image_body cfg env req s)) = activeRequests s"
  "filter is_counter_event (trace (snd (html_to_image_body cfg env req s)))
     = filter is_counter_event (trace s)"
  by (auto simp: html_to_image_body_def Let_def
        split: option.splits sum.splits prod.splits
        dest: generateImageOptimized_counterD)

lemma post_html_to_image_counter:
  "activeRequests (snd (post_html_to_image cfg env req s)) = max 0 (activeRequests s)"
  "filter is_counter_event (trace (snd (post_html_to_image cfg env req s)))
     = filter is_counter_event (trace s) @ [ActiveInc, ActiveDec]"
proof -
  obtain res s1 where b: "html_to_image_body cfg env req (request_enter s) = (res, s1)"
    by (cases "html_to_image_body cfg env req (request_enter s)")
  have "activeRequests s1 = activeRequests s + 1"
    and "filter is_counter_event (trace s1) = filter is_counter_event (trace s) @ [ActiveInc]"
    using html_to_image_body_counter [of cfg env req "request_enter s"] b by simp_all
  then show "activeRequests (snd (post_html_to_image cfg env req s)) = max 0 (activeRequests s)"
    and "filter is_counter_event (trace (snd (post_html_to_image cfg env req s)))
     = filter is_counter_event (trace s) @ [ActiveInc, ActiveDec]"
    using b by (simp_all add: post_html_to_image_def)
qed

lemma get_test_image_counter:
  "activeRequests (snd (get_test_image cfg env s)) = max 0 (activeRequests s)"
  "filter is_counter_event (trace (snd (get_test_image cfg env s)))
     = filter is_counter_event (trace s) @ [ActiveInc, ActiveDec]"
proof -
  obtain r s1 where b: "generateImageOptimized cfg env (testHtml env) (JObj []) (request_enter s) = (r, s1)"
    by (cases "generateImageOptimized cfg env (testHtml env) (JObj []) (request_enter s)")
  have "activeRequests s1 = activeRequests s + 1"
    and "filter is_counter_event (trace s1) = filter is_counter_event (trace s) @ [ActiveInc]"
    using generateImageOptimized_counter [of cfg env "testHtml env" "JObj []" "request_enter s"] b
    by simp_all
  then show "activeRequests (snd (get_test_image cfg env s)) = max 0 (activeRequests s)"
    and "filter is_counter_event (trace (snd (get_test_image cfg env s)))
     = filter is_counter_event (trace s) @ [ActiveInc, ActiveDec]"
    using b by (cases r; simp add: get_test_image_def)+
qed

lemma handle_request_counter:
  "activeRequests (snd (handle_request cfg env req s)) = activeRequests s
     \<and> filter is_counter_event (trace (snd (handle_request cfg env req s)))
         = filter is_counter_event (trace s)
   \<or> activeRequests (snd (handle_request cfg env req s)) = max 0 (activeRequests s)
     \<and> filter is_counter_event (trace (snd (handle_request cfg env req s)))
         = filter is_counter_event (trace s) @ [ActiveInc, ActiveDec]"
  by (simp add: handle_request_def post_html_to_image_counter get_test_image_counter
        get_root_def post_cache_clear_def imageCache_clear_def split: option.splits)

subsection \<open>Responses\<close>

lemma lower_ascii_other [simp]:
  "c \<notin> set ''ABCDEFGHIJKLMNOPQRSTUVWXYZ'' \<Longrightarrow> lower_ascii c = c"
proof -
  assume "c \<notin> set ''ABCDEFGHIJKLMNOPQRSTUVWXYZ''"
  then have "map_of (zip ''ABCDEFGHIJKLMNOPQRSTUVWXYZ'' ''abcdefghijklmnopqrstuvwxyz'') c = None"
    by (subst map_of_zip_is_None) simp_all
  then show ?thesis
    by (simp only: lower_ascii_def option.case)
qed

lemma routes_of_html_to_image [simp]:
  "route_matches ''/html-to-image'' ''/html-to-image''"
  "\<not> route_matches ''/'' ''/html-to-image''"
  "\<not> route_matches ''/cache-clear'' ''/html-to-image''"
  "\<not> route_matches ''/test-image'' ''/html-to-image''"
  by (simp_all add: route_matches_def)

lemma routes_of_test_image [simp]:
  "route_matches ''/test-image'' ''/test-image''"
  "\<not> route_matches ''/'' ''/test-image''"
  "\<not> route_matches ''/cache-clear'' ''/test-image''"
  "\<not> route_matches ''/html-to-image'' ''/test-image''"
  by (simp_all add: route_matches_def)

lemma serves_get_verbs [simp]:
  "serves_get ''GET''" "\<not> serves_get ''POST''"
  by (simp_all add: serves_get_def)

lemma status_options_response [simp]: "status (options_response allow) = 200"
  by (simp add: options_response_def)

lemma status_json_response [simp]: "status (json_response code ms) = code"
  by (simp add: json_response_def)

lemma status_image_response [simp]: "status (image_response ct d b extra) = 200"
  by (simp add: image_response_def)





subsection \<open>What a successful call leaves in the cache\<close>

lemma Map_get_Map_set_same [simp]: "Map_get (Map_set m k v) k = Some v"
  by (induction m) (simp_all add: Map_get_def)

lemma Map_has_Map_get: "Map_has m k \<longleftrightarrow> Map_get m k \<noteq> None"
  by (simp add: Map_has_def Map_get_def)

lemma await_imageCache_quiet:
  "interleaved env p = [] \<Longrightarrow> imageCache (await cfg env p ev s) = imageCache s"
  by (simp add: await_def)

lemma render_try_stores:
  assumes "render_try cfg env html fo key s = (Inr b, s')"
  shows "Map_get (imageCache s') key = Some \<lparr>buffer = b, timestamp = now_store env\<rparr>"
  using assms
  by (auto simp: render_try_def Let_def split: option.splits sum.splits)

lemma render_page_stores:
  assumes "render_page cfg env html opts key s = (Inr b, s')"
    and "interleaved env AwaitPageClose = []"
  shows "Map_get (imageCache s') key = Some \<lparr>buffer = b, timestamp = now_store env\<rparr>"
  using assms
  by (auto simp: render_page_def Let_def await_imageCache_quiet
        split: option.splits sum.splits prod.splits dest: render_try_stores)

lemma generateImageOptimized_stores:
  assumes "generateImageOptimized cfg env html opts s = (Inr b, s')"
    and "interleaved env AwaitPageClose = []"
  shows "\<exists>e. Map_get (imageCache s') (generateCacheKey html opts) = Some e \<and> buffer e = b"
  using assms
  by (auto simp: generateImageOptimized_def Let_def
        split: option.splits if_splits dest: render_page_stores)

subsection \<open>Unfolding for concrete runs\<close>

lemmas run_defs =
  generateImageOptimized_def render_page_def render_try_def initBrowser_def await_def emit_def
  first_launchOptions_def spread_def own_properties_def imageOptions_def
  Map_has_def Map_get_def Map_delete_def
  handle_request_def throttle_def post_html_to_image_def html_to_image_body_def
  request_enter_def request_exit_def json_response_def image_response_def
  failed_response_def get_property_def security_headers_def imageCache_clear_def
  cleanupCache_def Let_def

lemmas example_defs =
  calm_env_def default_config_def read_config_def int_setting_def initial_def
  post_request_def cached_state_def clear_during_close_env_def

lemma length_oversized_html [simp]: "length oversized_html = 10485761"
  by (simp add: oversized_html_def)

lemma oversized_html_not_empty [simp]: "oversized_html \<noteq> []"
  by (simp add: oversized_html_def)

subsection \<open>The response after a successful call\<close>

lemma valid_header_chars_formats:
  "list_all valid_header_char ''attachment; filename=''"
  "list_all valid_header_char ''screenshot.''"
  "list_all valid_header_char ''png''"
  "list_all valid_header_char ''jpeg''"
  "list_all valid_header_char ''webp''"
  "valid_header_char (CHR 0x22)"
  by (simp_all add: valid_header_char_def)

lemma format_default [simp]: "map_of imageOptions ''type'' = Some (JStr ''png'')"
  by (simp add: imageOptions_def)

lemma disposition_ok:
  assumes "t = ''png'' \<or> t = ''jpeg'' \<or> t = ''webp''"
  shows "\<not> checkInvalidHeaderChar (''attachment; filename='' @ [CHR 0x22] @ ''screenshot.''
                                 @ t @ [CHR 0x22])"
  using assms valid_header_chars_formats
  by (auto simp: checkInvalidHeaderChar_def)

text \<open>The response built after a successful call, for the three formats and no format.\<close>

lemma html_to_image_body_success:
  assumes "generateImageOptimized cfg env html opts s = (Inr bytes, s1)"
    and "html \<noteq> []" and "length html \<le> 10 * 1024 * 1024"
    and "body_html req = Some html"
    and "opts = (case body_options req of None \<Rightarrow> JObj [] | Some v \<Rightarrow> v)"
    and "get_property opts ''type'' = Inr t"
    and "t = None \<or> t = Some (JStr ''png'') \<or> t = Some (JStr ''jpeg'') \<or> t = Some (JStr ''webp'')"
  shows "status (fst (html_to_image_body cfg env req s)) = 200
         \<and> payload (fst (html_to_image_body cfg env req s)) = Image bytes
         \<and> snd (html_to_image_body cfg env req s) = s1"
proof -
  have ok: "\<And>f. f = ''png'' \<or> f = ''jpeg'' \<or> f = ''webp'' \<Longrightarrow>
              checkInvalidHeaderChar (''attachment; filename='' @ [CHR 0x22] @ ''screenshot.''
                                        @ f @ [CHR 0x22]) = False"
    using disposition_ok by simp
  from assms(7) show ?thesis
  proof (elim disjE)
    assume "t = None"
    then show ?thesis
      using assms(1-6)
      by (simp add: html_to_image_body_def Let_def image_response_def ok del: append.simps)
  next
    assume "t = Some (JStr ''png'')"
    then show ?thesis
      using assms(1-6)
      by (simp add: html_to_image_body_def Let_def image_response_def ok del: append.simps)
  next
    assume "t = Some (JStr ''jpeg'')"
    then show ?thesis
      using assms(1-6)
      by (simp add: html_to_image_body_def Let_def image_response_def ok del: append.simps)
  next
    assume "t = Some (JStr ''webp'')"
    then show ?thesis
      using assms(1-6)
      by (simp add: html_to_image_body_def Let_def image_response_def ok del: append.simps)
  qed
qed

lemma disposition_png [simp]:
  "checkInvalidHeaderChar ''attachment; filename=\"screenshot.png\"'' = False"
  using disposition_ok [of "''png''"] by simp

lemma cache_status_of_image_response:
  "map_of (headers (image_response ct d b [(''X-Cache-Status'', v)])) ''X-Cache-Status'' = Some v"
  by (simp add: image_response_def security_headers_def)

lemma status_failed_response [simp]: "status (failed_response e) = 500"
  by (simp add: failed_response_def)

lemma html_to_image_body_200:
  assumes "html_to_image_body cfg env req s = (res, s1)" and "status res = 200"
  shows "\<exists>html bytes ct d.
           generateImageOptimized cfg env html
               (case body_options req of None \<Rightarrow> JObj [] | Some v \<Rightarrow> v) s = (Inr bytes, s1)
           \<and> res = image_response ct d bytes
                 [(''X-Cache-Status'',
                   if Map_has (imageCache s1)
                        (generateCacheKey html
                           (case body_options req of None \<Rightarrow> JObj [] | Some v \<Rightarrow> v))
                   then ''HIT'' else ''MISS'')]"
proof (cases "body_html req")
  case None
  then show ?thesis
    using assms by (auto simp: html_to_image_body_def Let_def)
next
  case (Some html)
  let ?opts = "case body_options req of None \<Rightarrow> JObj [] | Some v \<Rightarrow> v"
  obtain r s2 where g: "generateImageOptimized cfg env html ?opts s = (r, s2)"
    by (cases "generateImageOptimized cfg env html ?opts s")
  have valid: "html \<noteq> []" "\<not> length html > 10 * 1024 * 1024"
    using assms Some by (auto simp: html_to_image_body_def Let_def split: if_splits)
  show ?thesis
  proof (cases r)
    case (Inl err)
    then show ?thesis
      using assms Some g valid by (auto simp: html_to_image_body_def Let_def)
  next
    case (Inr bytes)
    show ?thesis
    proof (cases "get_property ?opts ''type''")
      case (Inl err)
      then show ?thesis
        using assms Some g valid \<open>r = Inr bytes\<close> by (auto simp: html_to_image_body_def Let_def)
    next
      case t: (Inr t)
      show ?thesis
        using assms Some g valid \<open>r = Inr bytes\<close> t
        by (auto simp: html_to_image_body_def Let_def split: if_splits)
    qed
  qed
qed

subsection \<open>C1: a cached image and the throttle\<close>

text \<open>
  Claim C1 says that a request whose key is cached and unexpired is never answered 429.
  The throttling middleware runs before the route handler and does not look at the cache:
  with five requests in flight, the request for the cached image of \<^verbatim>\<open><h1>x</h1>\<close> is
  answered 429 and the state is left as it was.
\<close>

theorem cache_hit_rejected_when_busy:
  "Map_get (imageCache (cached_state\<lparr>activeRequests := 5\<rparr>))
       (generateCacheKey ''<h1>x</h1>'' (JObj []))
     = Some \<lparr>buffer = [1, 2, 3], timestamp = 1000\<rparr>
   \<and> now_lookup (calm_env\<lparr>now_lookup := 2000\<rparr>) - 1000 < CACHE_TTL default_config
   \<and> handle_request default_config (calm_env\<lparr>now_lookup := 2000\<rparr>)
        (post_request ''<h1>x</h1>'' None) (cached_state\<lparr>activeRequests := 5\<rparr>)
      = (\<lparr>status = 429,
          headers = security_headers,
          payload = Json [(''error'', JStr ''Server busy''),
                          (''message'',
                           JStr ''Too many concurrent requests. Please retry in a few seconds.''),
                          (''retryAfter'', JNum 3)]\<rparr>,
         cached_state\<lparr>activeRequests := 5\<rparr>)"
  by (simp add: handle_request_def throttle_def json_response_def example_defs Map_get_def)

text \<open>
  Claim C1, amended. For a \<^verbatim>\<open>POST /html-to-image\<close> whose \<^verbatim>\<open>html\<close> is a non-empty string of
  at most 10 MB, whose \<^verbatim>\<open>options\<close> are absent or an object whose \<^verbatim>\<open>type\<close>, if any, is
  \<^verbatim>\<open>png\<close>, \<^verbatim>\<open>jpeg\<close> or \<^verbatim>\<open>webp\<close>, and whose key has an entry younger than the TTL:
  when \<open>activeRequests\<close> is below \<open>MAX_CONCURRENT\<close> the answer is 200 with the cached
  bytes, the trace gains only the increment and the decrement of the counter (no call
  reaches the browser), and the cache and the browser handle are untouched; when
  \<open>activeRequests\<close> is at or above \<open>MAX_CONCURRENT\<close> the answer is 429 and the state is
  unchanged.
\<close>

theorem cache_hit_behind_throttle:
  assumes "Map_get (imageCache s)
             (generateCacheKey html (case options of None \<Rightarrow> JObj [] | Some v \<Rightarrow> v))
           = Some cached"
    and "now_lookup env - timestamp cached < CACHE_TTL cfg"
    and "html \<noteq> []" and "length html \<le> 10 * 1024 * 1024"
    and "options = None \<or> options = Some (JObj members)"
    and "map_of members ''type'' = None \<or> map_of members ''type'' = Some (JStr ''png'')
         \<or> map_of members ''type'' = Some (JStr ''jpeg'')
         \<or> map_of members ''type'' = Some (JStr ''webp'')"
  shows "(activeRequests s < MAX_CONCURRENT cfg \<longrightarrow>
           status (fst (handle_request cfg env (post_request html options) s)) = 200
           \<and> payload (fst (handle_request cfg env (post_request html options) s))
               = Image (buffer cached)
           \<and> trace (snd (handle_request cfg env (post_request html options) s))
               = trace s @ [ActiveInc, ActiveDec]
           \<and> imageCache (snd (handle_request cfg env (post_request html options) s))
               = imageCache s
           \<and> browser (snd (handle_request cfg env (post_request html options) s))
               = browser s)
         \<and> (MAX_CONCURRENT cfg \<le> activeRequests s \<longrightarrow>
           status (fst (handle_request cfg env (post_request html options) s)) = 429
           \<and> snd (handle_request cfg env (post_request html options) s) = s)"
proof -
  let ?opts = "case options of None \<Rightarrow> JObj [] | Some v \<Rightarrow> v"
  let ?req = "post_request html options"
  have hit: "generateImageOptimized cfg env html ?opts (request_enter s)
               = (Inr (buffer cached), request_enter s)"
    using assms(1,2)
    by (simp add: generateImageOptimized_def Let_def Map_has_def Map_get_def request_enter_def
          emit_def)
  obtain t where t: "get_property ?opts ''type'' = Inr t"
    and fmt: "t = None \<or> t = Some (JStr ''png'') \<or> t = Some (JStr ''jpeg'')
              \<or> t = Some (JStr ''webp'')"
    using assms(5,6) by (auto simp: get_property_def)
  have body: "status (fst (html_to_image_body cfg env ?req (request_enter s))) = 200
      \<and> payload (fst (html_to_image_body cfg env ?req (request_enter s))) = Image (buffer cached)
      \<and> snd (html_to_image_body cfg env ?req (request_enter s)) = request_enter s"
    by (rule html_to_image_body_success [OF hit assms(3,4) _ _ t fmt])
       (simp_all add: post_request_def)
  have admitted: "activeRequests s < MAX_CONCURRENT cfg \<Longrightarrow>
      handle_request cfg env ?req s
        = (fst (html_to_image_body cfg env ?req (request_enter s)),
           request_exit (snd (html_to_image_body cfg env ?req (request_enter s))))"
    by (simp add: handle_request_def throttle_def post_request_def post_html_to_image_def
          split: prod.splits)
  have busy: "MAX_CONCURRENT cfg \<le> activeRequests s \<Longrightarrow>
      status (fst (handle_request cfg env ?req s)) = 429 \<and> snd (handle_request cfg env ?req s) = s"
    by (simp add: handle_request_def throttle_def post_request_def)
  show ?thesis
    using body admitted busy by simp
qed

text \<open>The theorem at \<open>cached_state\<close>, once idle and once with five requests in flight.\<close>

theorem cache_hit_behind_throttle_witness:
  "Map_get (imageCache cached_state)
       (generateCacheKey ''<h1>x</h1>'' (case None of None \<Rightarrow> JObj [] | Some v \<Rightarrow> v))
     = Some \<lparr>buffer = [1, 2, 3], timestamp = 1000\<rparr>
   \<and> now_lookup (calm_env\<lparr>now_lookup := 2000\<rparr>)
        - timestamp \<lparr>buffer = [1, 2, 3], timestamp = 1000\<rparr> < CACHE_TTL default_config
   \<and> ''<h1>x</h1>'' \<noteq> [] \<and> length ''<h1>x</h1>'' \<le> 10 * 1024 * 1024
   \<and> map_of ([] :: (string \<times> json) list) ''type'' = None
   \<and> activeRequests cached_state < MAX_CONCURRENT default_config
   \<and> status (fst (handle_request default_config (calm_env\<lparr>now_lookup := 2000\<rparr>)
                    (post_request ''<h1>x</h1>'' None) cached_state)) = 200
   \<and> payload (fst (handle_request default_config (calm_env\<lparr>now_lookup := 2000\<rparr>)
                     (post_request ''<h1>x</h1>'' None) cached_state))
       = Image [1, 2, 3]
   \<and> MAX_CONCURRENT default_config \<le> activeRequests (cached_state\<lparr>activeRequests := 5\<rparr>)
   \<and> status (fst (handle_request default_config (calm_env\<lparr>now_lookup := 2000\<rparr>)
                    (post_request ''<h1>x</h1>'' None)
                    (cached_state\<lparr>activeRequests := 5\<rparr>)))
       = 429"
  using cache_hit_behind_throttle
          [of cached_state "''<h1>x</h1>''" None "\<lparr>buffer = [1, 2, 3], timestamp = 1000\<rparr>"
              "calm_env\<lparr>now_lookup := 2000\<rparr>" default_config "[]"]
        cache_hit_behind_throttle
          [of "cached_state\<lparr>activeRequests := 5\<rparr>" "''<h1>x</h1>''" None
              "\<lparr>buffer = [1, 2, 3], timestamp = 1000\<rparr>"
              "calm_env\<lparr>now_lookup := 2000\<rparr>" default_config "[]"]
  by (simp add: cached_state_def Map_get_def calm_env_def default_config_def read_config_def
        int_setting_def)

subsection \<open>C2: the cache key and the order of the option fields\<close>

text \<open>The escapes of \<open>json_escape\<close> form a prefix code, so a quoted name can be read back.\<close>

lemma hex_digit_inj:
  assumes "n < 16" "m < 16" "hex_digit n = hex_digit m"
  shows "n = m"
proof -
  have d: "distinct ''0123456789abcdef''" by simp
  have l: "length ''0123456789abcdef'' = 16" by simp
  show ?thesis
    using assms nth_eq_iff_index_eq [OF d, of n m] by (simp add: hex_digit_def)
qed

lemma control_code_eq:
  assumes "n < 32" "m < 32"
    and "hex_digit (n div 16) = hex_digit (m div 16)"
    and "hex_digit (n mod 16) = hex_digit (m mod 16)"
  shows "n = m"
proof -
  have "n div 16 = m div 16"
    using assms(1,2,3) by (intro hex_digit_inj) auto
  moreover have "n mod 16 = m mod 16"
    using assms(4) by (intro hex_digit_inj) auto
  ultimately show ?thesis
    by (metis div_mult_mod_eq)
qed

lemma char_by_code:
  "(of_char c :: nat) = k \<Longrightarrow> of_char d = k \<Longrightarrow> c = d"
  using inj_of_char [where ?'a = nat] by (auto dest: injD)

lemma json_escape_cases:
  "(json_escape c = [c] \<and> c \<noteq> CHR 0x22 \<and> c \<noteq> CHR 0x5C)
   \<or> (json_escape c = [CHR 0x5C, CHR 0x22] \<and> c = CHR 0x22)
   \<or> (json_escape c = [CHR 0x5C, CHR 0x5C] \<and> c = CHR 0x5C)
   \<or> (json_escape c = [CHR 0x5C, CHR ''b''] \<and> c = CHR 0x08)
   \<or> (json_escape c = [CHR 0x5C, CHR ''f''] \<and> c = CHR 0x0C)
   \<or> (json_escape c = [CHR 0x5C, CHR ''n''] \<and> c = CHR 0x0A)
   \<or> (json_escape c = [CHR 0x5C, CHR ''r''] \<and> c = CHR 0x0D)
   \<or> (json_escape c = [CHR 0x5C, CHR ''t''] \<and> c = CHR 0x09)
   \<or> (json_escape c = [CHR 0x5C, CHR ''u'', CHR ''0'', CHR ''0'',
                          hex_digit (of_char c div 16), hex_digit (of_char c mod 16)]
        \<and> (of_char c :: nat) < 32)"
proof -
  define n where "n = (of_char c :: nat)"
  consider (quote) "n = 0x22" | (backslash) "n = 0x5C" | (b) "n = 0x08" | (f) "n = 0x0C"
    | (n) "n = 0x0A" | (r) "n = 0x0D" | (t) "n = 0x09"
    | (control) "n < 0x20" "n \<noteq> 0x08" "n \<noteq> 0x0C" "n \<noteq> 0x0A" "n \<noteq> 0x0D" "n \<noteq> 0x09"
    | (plain) "0x20 \<le> n" "n \<noteq> 0x22" "n \<noteq> 0x5C"
    by linarith
  then show ?thesis
  proof cases
    case quote
    then have "c = CHR 0x22" unfolding n_def by (rule char_by_code) simp
    then show ?thesis by (simp add: json_escape_def)
  next
    case backslash
    then have "c = CHR 0x5C" unfolding n_def by (rule char_by_code) simp
    then show ?thesis by (simp add: json_escape_def)
  next
    case b
    then have "c = CHR 0x08" unfolding n_def by (rule char_by_code) simp
    then show ?thesis by (simp add: json_escape_def)
  next
    case f
    then have "c = CHR 0x0C" unfolding n_def by (rule char_by_code) simp
    then show ?thesis by (simp add: json_escape_def)
  next
    case n
    then have "c = CHR 0x0A" unfolding n_def by (rule char_by_code) simp
    then show ?thesis by (simp add: json_escape_def)
  next
    case r
    then have "c = CHR 0x0D" unfolding n_def by (rule char_by_code) simp
    then show ?thesis by (simp add: json_escape_def)
  next
    case t
    then have "c = CHR 0x09" unfolding n_def by (rule char_by_code) simp
    then show ?thesis by (simp add: json_escape_def)
  next
    case control
    then have "json_escape c = [CHR 0x5C, CHR ''u'', CHR ''0'', CHR ''0'',
                          hex_digit (of_char c div 16), hex_digit (of_char c mod 16)]"
      unfolding n_def by (simp add: json_escape_def Let_def)
    then show ?thesis using control(1) unfolding n_def by simp
  next
    case plain
    then have e: "json_escape c = [c]"
      unfolding n_def by (simp add: json_escape_def Let_def)
    have "c \<noteq> CHR 0x22" "c \<noteq> CHR 0x5C"
      using plain(2,3) unfolding n_def by auto
    then show ?thesis using e by simp
  qed
qed

lemma control_char_eq:
  assumes "(of_char c :: nat) < 32" "(of_char d :: nat) < 32"
    and "hex_digit (of_char c div 16) = hex_digit (of_char d div 16)"
    and "hex_digit (of_char c mod 16) = hex_digit (of_char d mod 16)"
  shows "c = d"
  using control_code_eq [OF assms] by simp

lemma json_escape_prefix_free:
  assumes "json_escape c @ x = json_escape d @ y"
  shows "c = d \<and> x = y"
  using assms json_escape_cases [of c] json_escape_cases [of d]
  apply (elim disjE conjE)
  apply (simp_all add: control_char_eq)
  done

lemma json_escape_not_quote: "json_escape d @ r \<noteq> CHR 0x22 # x"
  using json_escape_cases [of d] by (elim disjE conjE) simp_all

lemma escaped_prefix_free:
  "concat (map json_escape a) @ CHR 0x22 # x = concat (map json_escape b) @ CHR 0x22 # y
     \<Longrightarrow> a = b \<and> x = y"
proof (induction a arbitrary: b)
  case Nil
  show ?case
  proof (cases b)
    case Nil
    then show ?thesis using Nil.prems by simp
  next
    case (Cons d b')
    then have "json_escape d @ (concat (map json_escape b') @ CHR 0x22 # y) = CHR 0x22 # x"
      using Nil.prems by simp
    then show ?thesis using json_escape_not_quote by blast
  qed
next
  case (Cons c a)
  show ?case
  proof (cases b)
    case Nil
    then have "json_escape c @ (concat (map json_escape a) @ CHR 0x22 # x) = CHR 0x22 # y"
      using Cons.prems by simp
    then show ?thesis using json_escape_not_quote by blast
  next
    case (Cons d b')
    have "json_escape c @ (concat (map json_escape a) @ CHR 0x22 # x)
            = json_escape d @ (concat (map json_escape b') @ CHR 0x22 # y)"
      using Cons.prems Cons by simp
    then have "c = d" and "concat (map json_escape a) @ CHR 0x22 # x
                             = concat (map json_escape b') @ CHR 0x22 # y"
      using json_escape_prefix_free by blast+
    then show ?thesis
      using Cons.IH Cons by blast
  qed
qed

lemma json_quote_prefix_free:
  "json_quote a @ x = json_quote b @ y \<Longrightarrow> a = b \<and> x = y"
  using escaped_prefix_free [of a x b y] by (simp add: json_quote_def)

lemma join_Cons: "ys \<noteq> [] \<Longrightarrow> join sep (x # ys) = x @ sep @ join sep ys"
  by (cases ys) simp_all

lemma join_append_Cons:
  "join sep (xs @ z # zs) = concat (map (\<lambda>x. x @ sep) xs) @ join sep (z # zs)"
  by (induction xs) (simp_all add: join_Cons)

lemma stringify_members_append:
  "stringify_members (p @ m # r)
     = stringify_members p @ (json_quote (fst m) @ '':'' @ JSON_stringify (snd m))
         # stringify_members r"
  by (induction p) simp_all

lemma join_member_head:
  "\<exists>rest. join sep ((json_quote k @ CHR '':'' # v) # zs) = json_quote k @ rest"
  by (cases zs) simp_all

text \<open>Two objects that agree up to a member and name the next member differently.\<close>

lemma stringify_differs_at_name:
  assumes "k1 \<noteq> k2"
  shows "JSON_stringify (JObj (p @ (k1, v1) # r1)) \<noteq> JSON_stringify (JObj (p @ (k2, v2) # r2))"
proof
  assume eq: "JSON_stringify (JObj (p @ (k1, v1) # r1)) = JSON_stringify (JObj (p @ (k2, v2) # r2))"
  obtain rest1 where r1: "join '','' ((json_quote k1 @ CHR '':'' # JSON_stringify v1)
                                       # stringify_members r1) = json_quote k1 @ rest1"
    using join_member_head by blast
  obtain rest2 where r2: "join '','' ((json_quote k2 @ CHR '':'' # JSON_stringify v2)
                                       # stringify_members r2) = json_quote k2 @ rest2"
    using join_member_head by blast
  have "json_quote k1 @ (rest1 @ ''}'') = json_quote k2 @ (rest2 @ ''}'')"
    using eq by (simp add: stringify_members_append join_append_Cons r1 r2)
  then have "k1 = k2"
    using json_quote_prefix_free by blast
  then show False using assms by simp
qed

lemma map_of_Cons_cancel:
  assumes "map_of (x # xs) = map_of (x # ys)"
    and "fst x \<notin> set (map fst xs)" and "fst x \<notin> set (map fst ys)"
  shows "map_of xs = map_of ys"
proof
  fix k
  show "map_of xs k = map_of ys k"
  proof (cases "k = fst x")
    case True
    then have "map_of xs k = None" "map_of ys k = None"
      using assms(2,3) by (simp_all add: map_of_eq_None_iff)
    then show ?thesis by simp
  next
    case False
    have "map_of (x # xs) k = map_of (x # ys) k"
      using assms(1) by simp
    then show ?thesis
      using False by (cases x) simp
  qed
qed

text \<open>
  Two different member lists with distinct names and the same members agree up to some
  position and name the member at that position differently.
\<close>

lemma first_difference:
  assumes "distinct (map fst xs)" and "distinct (map fst ys)"
    and "map_of xs = map_of ys" and "xs \<noteq> ys"
  shows "\<exists>p k1 v1 r1 k2 v2 r2.
           xs = p @ (k1, v1) # r1 \<and> ys = p @ (k2, v2) # r2 \<and> k1 \<noteq> k2"
  using assms
proof (induction xs arbitrary: ys)
  case Nil
  then obtain y ys' where "ys = y # ys'" by (cases ys) auto
  then have "map_of ys (fst y) = Some (snd y)" by (cases y) simp
  moreover have "map_of [] (fst y) = (None :: 'b option)" by simp
  ultimately show ?case using Nil.prems(3) by (metis option.distinct(1))
next
  case (Cons x xs)
  show ?case
  proof (cases ys)
    case Nil
    have "map_of (x # xs) (fst x) = Some (snd x)" by (cases x) simp
    moreover have "map_of ys (fst x) = None" using Nil by simp
    ultimately show ?thesis using Cons.prems(3) by (metis option.distinct(1))
  next
    case ys: (Cons y ys')
    show ?thesis
    proof (cases "fst x = fst y")
      case False
      have "x # xs = [] @ (fst x, snd x) # xs \<and> ys = [] @ (fst y, snd y) # ys'
            \<and> fst x \<noteq> fst y"
        using False ys by simp
      then show ?thesis by blast
    next
      case True
      have "map_of (x # xs) (fst x) = Some (snd x)" by (cases x) simp
      moreover have "map_of (y # ys') (fst x) = Some (snd y)"
        using True by (cases y) simp
      ultimately have "snd x = snd y"
        using Cons.prems(3) ys by (metis option.inject)
      then have xy: "x = y" using True by (simp add: prod_eq_iff)
      have dx: "distinct (map fst xs)" and nx: "fst y \<notin> set (map fst xs)"
        using Cons.prems(1) xy by simp_all
      have dy: "distinct (map fst ys')" and ny: "fst y \<notin> set (map fst ys')"
        using Cons.prems(2) ys by simp_all
      have "map_of (x # xs) = map_of ys"
        by (rule Cons.prems(3))
      then have "map_of (y # xs) = map_of (y # ys')"
        unfolding ys xy .
      then have meq: "map_of xs = map_of ys'"
        using nx ny by (rule map_of_Cons_cancel)
      have ne: "xs \<noteq> ys'"
        using Cons.prems(4) ys xy by simp
      obtain p k1 v1 r1 k2 v2 r2 where
        "xs = p @ (k1, v1) # r1" "ys' = p @ (k2, v2) # r2" "k1 \<noteq> k2"
        using Cons.IH [OF dx dy meq ne] by blast
      then have "x # xs = (x # p) @ (k1, v1) # r1 \<and> ys = (x # p) @ (k2, v2) # r2 \<and> k1 \<noteq> k2"
        using ys xy by simp
      then show ?thesis by blast
    qed
  qed
qed

lemma key_width_height:
  "generateCacheKey ''<h1>x</h1>'' (JObj [(''width'', JNum 800), (''height'', JNum 600)])
     = ''30183f436d47b6f7e01174114a8cdd09''"
  by code_simp

lemma key_height_width:
  "generateCacheKey ''<h1>x</h1>'' (JObj [(''height'', JNum 600), (''width'', JNum 800)])
     = ''64566cdd317c2f61ff7a43e25e6fc8eb''"
  by code_simp

text \<open>
  Claim C2 says that options with the same fields and values in a different order get the
  same key. \<^verbatim>\<open>JSON.stringify\<close> writes the members in insertion order and nothing sorts
  them: \<^verbatim>\<open>{"width":800,"height":600}\<close> and \<^verbatim>\<open>{"height":600,"width":800}\<close> have the same
  members, different serializations and different keys.
\<close>

theorem cache_key_depends_on_field_order:
  "map_of [(''width'', JNum 800), (''height'', JNum 600)]
     = map_of [(''height'', JNum 600), (''width'', JNum 800)]
   \<and> JSON_stringify (JObj [(''width'', JNum 800), (''height'', JNum 600)])
       \<noteq> JSON_stringify (JObj [(''height'', JNum 600), (''width'', JNum 800)])
   \<and> generateCacheKey ''<h1>x</h1>'' (JObj [(''width'', JNum 800), (''height'', JNum 600)])
       \<noteq> generateCacheKey ''<h1>x</h1>'' (JObj [(''height'', JNum 600), (''width'', JNum 800)])"
proof -
  have "map_of [(''width'', JNum 800), (''height'', JNum 600)]
     = map_of [(''height'', JNum 600), (''width'', JNum 800)]"
    by (auto simp: fun_eq_iff)
  moreover have "JSON_stringify (JObj [(''width'', JNum 800), (''height'', JNum 600)])
       \<noteq> JSON_stringify (JObj [(''height'', JNum 600), (''width'', JNum 800)])"
    by (simp add: json_quote_def json_escape_def)
  moreover have "generateCacheKey ''<h1>x</h1>'' (JObj [(''width'', JNum 800), (''height'', JNum 600)])
       \<noteq> generateCacheKey ''<h1>x</h1>'' (JObj [(''height'', JNum 600), (''width'', JNum 800)])"
    by (simp add: key_width_height key_height_width)
  ultimately show ?thesis by blast
qed

text \<open>
  Claim C2, amended. For two options objects with the same fields and values (the names
  of an object being pairwise distinct): when the fields are enumerated in the same order
  the keys are identical for the same \<^verbatim>\<open>html\<close>; when they are enumerated in a different
  order the strings that are hashed differ, so that the keys can agree only by a collision
  of MD5.
\<close>

theorem cache_key_follows_insertion_order:
  assumes "distinct (map fst fields1)" and "distinct (map fst fields2)"
    and "map_of fields1 = map_of fields2"
  shows "(map fst fields1 = map fst fields2 \<longrightarrow>
            generateCacheKey html (JObj fields1) = generateCacheKey html (JObj fields2))
         \<and> (map fst fields1 \<noteq> map fst fields2 \<longrightarrow>
            html @ JSON_stringify (JObj fields1) \<noteq> html @ JSON_stringify (JObj fields2))"
proof (intro conjI impI)
  assume "map fst fields1 = map fst fields2"
  show "generateCacheKey html (JObj fields1) = generateCacheKey html (JObj fields2)"
  proof (cases "fields1 = fields2")
    case True
    then show ?thesis by simp
  next
    case False
    then obtain p k1 v1 r1 k2 v2 r2 where
      d: "fields1 = p @ (k1, v1) # r1" "fields2 = p @ (k2, v2) # r2" "k1 \<noteq> k2"
      using first_difference [OF assms] by blast
    have "map fst fields1 ! length p = k1" "map fst fields2 ! length p = k2"
      using d by (simp_all add: nth_append)
    then show ?thesis
      using \<open>map fst fields1 = map fst fields2\<close> d(3) by simp
  qed
next
  assume "map fst fields1 \<noteq> map fst fields2"
  then have "fields1 \<noteq> fields2" by auto
  then obtain p k1 v1 r1 k2 v2 r2 where
    d: "fields1 = p @ (k1, v1) # r1" "fields2 = p @ (k2, v2) # r2" "k1 \<noteq> k2"
    using first_difference [OF assms] by blast
  show "html @ JSON_stringify (JObj fields1) \<noteq> html @ JSON_stringify (JObj fields2)"
    using stringify_differs_at_name [OF d(3), of p v1 r1 v2 r2] d(1,2) by simp
qed

text \<open>
  The theorem at \<^verbatim>\<open>{"width":800,"height":600}\<close> against \<^verbatim>\<open>{"height":600,"width":800}\<close> and
  against itself.
\<close>

theorem cache_key_follows_insertion_order_witness:
  "distinct (map fst [(''width'', JNum 800), (''height'', JNum 600)])
   \<and> distinct (map fst [(''height'', JNum 600), (''width'', JNum 800)])
   \<and> map_of [(''width'', JNum 800), (''height'', JNum 600)]
       = map_of [(''height'', JNum 600), (''width'', JNum 800)]
   \<and> map fst [(''width'', JNum 800), (''height'', JNum 600)]
       \<noteq> map fst [(''height'', JNum 600), (''width'', JNum 800)]
   \<and> ''<h1>x</h1>'' @ JSON_stringify (JObj [(''width'', JNum 800), (''height'', JNum 600)])
       \<noteq> ''<h1>x</h1>'' @ JSON_stringify (JObj [(''height'', JNum 600), (''width'', JNum 800)])
   \<and> generateCacheKey ''<h1>x</h1>'' (JObj [(''width'', JNum 800), (''height'', JNum 600)])
       = generateCacheKey ''<h1>x</h1>'' (JObj [(''width'', JNum 800), (''height'', JNum 600)])"
proof -
  have a: "distinct (map fst [(''width'', JNum 800), (''height'', JNum 600)])"
    and b: "distinct (map fst [(''height'', JNum 600), (''width'', JNum 800)])"
    by simp_all
  have c: "map_of [(''width'', JNum 800), (''height'', JNum 600)]
             = map_of [(''height'', JNum 600), (''width'', JNum 800)]"
    by (auto simp: fun_eq_iff)
  have d: "map fst [(''width'', JNum 800), (''height'', JNum 600)]
             \<noteq> map fst [(''height'', JNum 600), (''width'', JNum 800)]"
    by simp
  show ?thesis
    using a b c d cache_key_follows_insertion_order [OF a b c, of "''<h1>x</h1>''"]
          cache_key_follows_insertion_order [OF a a refl, of "''<h1>x</h1>''"]
    by blast
qed

subsection \<open>C3: oversized \<^verbatim>\<open>html\<close>\<close>

text \<open>
  Claim C3 says that a request with more than 10 MB of \<^verbatim>\<open>html\<close> is answered 413 before the
  admission gate and without the counter being incremented. The throttle runs first, so
  with five requests in flight the answer is 429; and when the request is admitted, the
  handler increments the counter before it validates the body and decrements it on exit.
\<close>

theorem oversized_html_counted_and_throttled:
  "length oversized_html > 10 * 1024 * 1024
   \<and> status (fst (handle_request default_config calm_env (post_request oversized_html None)
                    (initial\<lparr>activeRequests := 5\<rparr>))) = 429
   \<and> status (fst (handle_request default_config calm_env (post_request oversized_html None)
                    initial)) = 413
   \<and> trace (snd (handle_request default_config calm_env (post_request oversized_html None)
                    initial)) = [ActiveInc, ActiveDec]"
  by (simp add: handle_request_def throttle_def post_request_def post_html_to_image_def
        html_to_image_body_def json_response_def Let_def request_enter_def request_exit_def
        emit_def initial_def default_config_def read_config_def int_setting_def)

text \<open>
  Claim C3, amended. A \<^verbatim>\<open>POST /html-to-image\<close> with more than 10 MB of \<^verbatim>\<open>html\<close> is answered
  413 when \<open>activeRequests\<close> is below \<open>MAX_CONCURRENT\<close>: the counter is incremented and
  decremented again, and nothing else happens (no call reaches the browser, the cache and
  the browser handle are untouched). When \<open>activeRequests\<close> is at or above
  \<open>MAX_CONCURRENT\<close> it is answered 429 and the state is unchanged.
\<close>

theorem oversized_html_rejected:
  assumes "length html > 10 * 1024 * 1024"
  shows "(activeRequests s < MAX_CONCURRENT cfg \<longrightarrow>
           status (fst (handle_request cfg env (post_request html opts) s)) = 413
           \<and> snd (handle_request cfg env (post_request html opts) s)
               = request_exit (request_enter s)
           \<and> trace (snd (handle_request cfg env (post_request html opts) s))
               = trace s @ [ActiveInc, ActiveDec]
           \<and> imageCache (snd (handle_request cfg env (post_request html opts) s)) = imageCache s
           \<and> browser (snd (handle_request cfg env (post_request html opts) s)) = browser s)
         \<and> (MAX_CONCURRENT cfg \<le> activeRequests s \<longrightarrow>
           status (fst (handle_request cfg env (post_request html opts) s)) = 429
           \<and> snd (handle_request cfg env (post_request html opts) s) = s)"
proof -
  have "html \<noteq> []" using assms by auto
  then show ?thesis
    using assms
    by (auto simp: handle_request_def throttle_def post_request_def post_html_to_image_def
          html_to_image_body_def json_response_def Let_def request_enter_def request_exit_def
          emit_def)
qed

text \<open>The theorem at \<open>oversized_html\<close>, once idle and once with five requests in flight.\<close>

theorem oversized_html_rejected_witness:
  "length oversized_html > 10 * 1024 * 1024
   \<and> activeRequests initial < MAX_CONCURRENT default_config
   \<and> status (fst (handle_request default_config calm_env (post_request oversized_html None)
                    initial)) = 413
   \<and> MAX_CONCURRENT default_config \<le> activeRequests (initial\<lparr>activeRequests := 5\<rparr>)
   \<and> snd (handle_request default_config calm_env (post_request oversized_html None)
             (initial\<lparr>activeRequests := 5\<rparr>)) = initial\<lparr>activeRequests := 5\<rparr>"
  using oversized_html_rejected [of oversized_html initial default_config calm_env None]
        oversized_html_rejected
          [of oversized_html "initial\<lparr>activeRequests := 5\<rparr>" default_config calm_env None]
  by (simp add: initial_def default_config_def read_config_def int_setting_def)

subsection \<open>C4: the counter of active requests\<close>

text \<open>
  Claim C4. From a state whose counter is not negative, after any sequence of requests
  handled to completion (any route, any outcome of the external calls, anything running at
  the suspension points) the counter has the value it had before, hence is not negative;
  and the counter updates recorded by the sequence are pairs of one increment followed by
  one decrement, at most one pair per request.
\<close>

theorem activeRequests_restored:
  "0 \<le> activeRequests s \<Longrightarrow>
     activeRequests (run_requests cfg rs s) = activeRequests s
     \<and> (\<exists>k \<le> length rs.
          filter is_counter_event (trace (run_requests cfg rs s))
            = filter is_counter_event (trace s) @ concat (replicate k [ActiveInc, ActiveDec]))"
proof (induction rs arbitrary: s)
  case Nil
  show ?case by simp
next
  case (Cons r rs)
  let ?s1 = "snd (handle_request cfg (fst r) (snd r) s)"
  have step: "activeRequests ?s1 = activeRequests s"
    using handle_request_counter [of cfg "fst r" "snd r" s] Cons.prems by auto
  then have "0 \<le> activeRequests ?s1" using Cons.prems by simp
  from Cons.IH [OF this] obtain k where k: "k \<le> length rs"
    "activeRequests (run_requests cfg rs ?s1) = activeRequests ?s1"
    "filter is_counter_event (trace (run_requests cfg rs ?s1))
       = filter is_counter_event (trace ?s1) @ concat (replicate k [ActiveInc, ActiveDec])"
    by blast
  consider (same) "filter is_counter_event (trace ?s1) = filter is_counter_event (trace s)"
    | (pair) "filter is_counter_event (trace ?s1)
               = filter is_counter_event (trace s) @ [ActiveInc, ActiveDec]"
    using handle_request_counter [of cfg "fst r" "snd r" s] by blast
  then have "\<exists>j \<le> length (r # rs).
          filter is_counter_event (trace (run_requests cfg (r # rs) s))
            = filter is_counter_event (trace s) @ concat (replicate j [ActiveInc, ActiveDec])"
  proof cases
    case same
    with k have "k \<le> length (r # rs) \<and> filter is_counter_event (trace (run_requests cfg (r # rs) s))
            = filter is_counter_event (trace s) @ concat (replicate k [ActiveInc, ActiveDec])"
      by simp
    then show ?thesis by blast
  next
    case pair
    with k have "Suc k \<le> length (r # rs) \<and> filter is_counter_event (trace (run_requests cfg (r # rs) s))
            = filter is_counter_event (trace s) @ concat (replicate (Suc k) [ActiveInc, ActiveDec])"
      by simp
    then show ?thesis by blast
  qed
  then show ?case using k step by simp
qed

text \<open>
  The theorem at three requests from the initial state: a successful render, a render whose
  screenshot throws, and a request without \<^verbatim>\<open>html\<close>.
\<close>

theorem activeRequests_restored_witness:
  "0 \<le> activeRequests initial
   \<and> activeRequests
         (run_requests default_config
            [(calm_env, post_request ''<h1>x</h1>'' None),
             (calm_env\<lparr>screenshot_result := Inl ''Protocol error''\<rparr>,
              post_request ''<h1>y</h1>'' None),
             (calm_env, \<lparr>http_method = ''POST'', path = ''/html-to-image'', body_html = None,
                         body_options = None\<rparr>)]
            initial) = 0"
  using activeRequests_restored
          [of initial default_config
              "[(calm_env, post_request ''<h1>x</h1>'' None),
                (calm_env\<lparr>screenshot_result := Inl ''Protocol error''\<rparr>,
                 post_request ''<h1>y</h1>'' None),
                (calm_env, \<lparr>http_method = ''POST'', path = ''/html-to-image'', body_html = None,
                            body_options = None\<rparr>)]"]
  by (simp add: initial_def)

subsection \<open>C5: the age of an entry served from the cache\<close>

text \<open>
  Claim C5 at an entry whose age equals the TTL. The entry of \<open>cached_state\<close> was stored at
  1000 and the TTL is 300000. A lookup at 300999 returns the cached bytes; a lookup at
  301000 (age exactly the TTL) does not: a page is opened and the fresh screenshot is
  returned. The periodic sweep at 301000 keeps that same entry.
\<close>

theorem lookup_at_age_equal_ttl:
  "CACHE_TTL default_config = 300000
   \<and> generateImageOptimized default_config
         (calm_env\<lparr>now_lookup := 300999, now_store := 301200\<rparr>)
         ''<h1>x</h1>'' (JObj []) cached_state
       = (Inr [1, 2, 3], cached_state)
   \<and> fst (generateImageOptimized default_config
              (calm_env\<lparr>now_lookup := 301000, now_store := 301200\<rparr>)
              ''<h1>x</h1>'' (JObj []) cached_state)
       = Inr [0x89, 0x50, 0x4E, 0x47]
   \<and> trace (snd (generateImageOptimized default_config
                     (calm_env\<lparr>now_lookup := 301000, now_store := 301200\<rparr>)
                     ''<h1>x</h1>'' (JObj []) cached_state))
       = [NewPage 1,
          SetViewport (Some (JNum 1920)) (Some (JNum 1080)) (Some (JNum 1)),
          SetContent ''<h1>x</h1>'' (Some (JNum 25000)),
          Screenshot [(''fullPage'', Some (JBool True)), (''type'', Some (JStr ''png''))],
          PageClose 7]
   \<and> cleanupCache default_config 301000 cached_state = cached_state"
  by (simp add: run_defs example_defs)

subsection \<open>C6: launching the browser\<close>




subsection \<open>C7: rendering twice\<close>

text \<open>
  Claim C7. When a call of \<open>generateImageOptimized\<close> returns bytes, the cache is not cleared
  while its page is being closed, and the entry of the key is younger than the TTL at the
  lookup of a second call with the same \<^verbatim>\<open>html\<close> and \<^verbatim>\<open>options\<close>, then the second call
  returns the same bytes and leaves the state as it is: it is served from the cache and
  nothing is rendered.
\<close>

theorem second_render_is_cache_hit:
  assumes "generateImageOptimized cfg env1 html opts s0 = (Inr bytes, s1)"
    and "interleaved env1 AwaitPageClose = []"
    and "\<forall>e. Map_get (imageCache s1) (generateCacheKey html opts) = Some e
               \<longrightarrow> now_lookup env2 - timestamp e < CACHE_TTL cfg"
  shows "generateImageOptimized cfg env2 html opts s1 = (Inr bytes, s1)"
proof -
  obtain e where e: "Map_get (imageCache s1) (generateCacheKey html opts) = Some e"
    and b: "buffer e = bytes"
    using generateImageOptimized_stores [OF assms(1,2)] by blast
  have "now_lookup env2 - timestamp e < CACHE_TTL cfg"
    using assms(3) e by blast
  then show ?thesis
    using e b by (simp add: generateImageOptimized_def Let_def Map_has_Map_get)
qed

text \<open>The theorem at a render from the initial state followed by a lookup at 5000.\<close>

theorem second_render_is_cache_hit_witness:
  "generateImageOptimized default_config calm_env ''<h1>x</h1>'' (JObj []) initial
     = (Inr [0x89, 0x50, 0x4E, 0x47],
        snd (generateImageOptimized default_config calm_env ''<h1>x</h1>'' (JObj []) initial))
   \<and> interleaved calm_env AwaitPageClose = []
   \<and> Map_get (imageCache (snd (generateImageOptimized default_config calm_env
                                  ''<h1>x</h1>'' (JObj []) initial)))
         (generateCacheKey ''<h1>x</h1>'' (JObj []))
       = Some \<lparr>buffer = [0x89, 0x50, 0x4E, 0x47], timestamp = 1200\<rparr>
   \<and> now_lookup (calm_env\<lparr>now_lookup := 5000\<rparr>) - 1200 < CACHE_TTL default_config
   \<and> generateImageOptimized default_config (calm_env\<lparr>now_lookup := 5000\<rparr>)
         ''<h1>x</h1>'' (JObj [])
         (snd (generateImageOptimized default_config calm_env ''<h1>x</h1>'' (JObj []) initial))
       = (Inr [0x89, 0x50, 0x4E, 0x47],
          snd (generateImageOptimized default_config calm_env ''<h1>x</h1>'' (JObj []) initial))"
proof -
  let ?s1 = "snd (generateImageOptimized default_config calm_env ''<h1>x</h1>'' (JObj []) initial)"
  have first: "generateImageOptimized default_config calm_env ''<h1>x</h1>'' (JObj []) initial
     = (Inr [0x89, 0x50, 0x4E, 0x47], ?s1)"
    by (simp add: run_defs example_defs)
  have quiet: "interleaved calm_env AwaitPageClose = []"
    by (simp add: calm_env_def)
  have entry: "Map_get (imageCache ?s1) (generateCacheKey ''<h1>x</h1>'' (JObj []))
                 = Some \<lparr>buffer = [0x89, 0x50, 0x4E, 0x47], timestamp = 1200\<rparr>"
    by (simp add: run_defs example_defs)
  have age: "now_lookup (calm_env\<lparr>now_lookup := 5000\<rparr>) - 1200 < CACHE_TTL default_config"
    by (simp add: example_defs)
  have fresh: "\<forall>e. Map_get (imageCache ?s1) (generateCacheKey ''<h1>x</h1>'' (JObj [])) = Some e
            \<longrightarrow> now_lookup (calm_env\<lparr>now_lookup := 5000\<rparr>) - timestamp e
                  < CACHE_TTL default_config"
    using entry age by simp
  show ?thesis
    using first quiet entry age second_render_is_cache_hit [OF first quiet fresh] by blast
qed

subsection \<open>C8: graceful shutdown\<close>

text \<open>
  Claim C8 says that on a termination signal the shutdown path ends with
  \<^verbatim>\<open>process.exit(0)\<close>. With a browser handle stored the callback awaits \<^verbatim>\<open>browser.close()\<close>
  with nothing to catch a rejection: at \<open>cached_state\<close>, whose handle is 1, when
  \<^verbatim>\<open>browser.close()\<close> rejects the calls end with the close of the browser and the process
  is not terminated.
\<close>

theorem shutdown_without_exit:
  "browser cached_state = Some 1
   \<and> trace (close_callback
              (calm_env\<lparr>browser_close_result := Rejected ''Protocol error: Connection closed.''\<rparr>)
              (on_signal SIGTERM cached_state))
       = [ServerClose, CacheClear, BrowserClose 1]"
  by (simp add: close_callback_def imageCache_clear_def emit_def cached_state_def calm_env_def
        Let_def)

text \<open>
  Claim C8, amended. On \<^verbatim>\<open>SIGTERM\<close> or \<^verbatim>\<open>SIGINT\<close> the handler calls \<^verbatim>\<open>server.close\<close>. The
  callback of \<^verbatim>\<open>server.close\<close>, in whatever state it is called, empties the cache and then:
  without a handle the close step is skipped and \<^verbatim>\<open>process.exit(0)\<close> is called; with a
  handle \<^verbatim>\<open>browser.close()\<close> is called and \<^verbatim>\<open>process.exit(0)\<close> follows when that has
  resolved; when it rejects or never settles, \<^verbatim>\<open>process.exit(0)\<close> is not called.
\<close>

theorem shutdown_calls:
  "trace (on_signal sig s0) = trace s0 @ [ServerClose]
   \<and> imageCache (close_callback env s) = []
   \<and> (browser s = None \<longrightarrow>
        trace (close_callback env s) = trace s @ [CacheClear, ProcessExit 0])
   \<and> (browser s = Some b \<and> browser_close_result env = Resolved \<longrightarrow>
        trace (close_callback env s) = trace s @ [CacheClear, BrowserClose b, ProcessExit 0])
   \<and> (browser s = Some b \<and> browser_close_result env \<noteq> Resolved \<longrightarrow>
        trace (close_callback env s) = trace s @ [CacheClear, BrowserClose b])"
proof -
  have "trace (on_signal sig s0) = trace s0 @ [ServerClose]"
    by (cases sig) simp_all
  moreover have "imageCache (close_callback env s) = []"
    by (simp add: close_callback_def imageCache_clear_def Let_def split: option.splits settled.splits)
  moreover have "browser s = None \<longrightarrow>
        trace (close_callback env s) = trace s @ [CacheClear, ProcessExit 0]"
    by (simp add: close_callback_def imageCache_clear_def Let_def)
  moreover have "browser s = Some b \<and> browser_close_result env = Resolved \<longrightarrow>
        trace (close_callback env s) = trace s @ [CacheClear, BrowserClose b, ProcessExit 0]"
    by (simp add: close_callback_def imageCache_clear_def Let_def)
  moreover have "browser s = Some b \<and> browser_close_result env \<noteq> Resolved \<longrightarrow>
        trace (close_callback env s) = trace s @ [CacheClear, BrowserClose b]"
    by (cases "browser_close_result env")
       (simp_all add: close_callback_def imageCache_clear_def Let_def)
  ultimately show ?thesis by blast
qed

text \<open>
  The theorem at the initial state, and at a state with browser handle 1 whose close
  resolves and whose close never settles.
\<close>

theorem shutdown_calls_witness:
  "browser initial = None
   \<and> trace (close_callback calm_env (on_signal SIGTERM initial))
       = [ServerClose, CacheClear, ProcessExit 0]
   \<and> browser (on_signal SIGINT (initial\<lparr>browser := Some 1\<rparr>)) = Some 1
   \<and> browser_close_result calm_env = Resolved
   \<and> trace (close_callback calm_env (on_signal SIGINT (initial\<lparr>browser := Some 1\<rparr>)))
       = [ServerClose, CacheClear, BrowserClose 1, ProcessExit 0]
   \<and> browser_close_result (calm_env\<lparr>browser_close_result := Pending\<rparr>) \<noteq> Resolved
   \<and> trace (close_callback (calm_env\<lparr>browser_close_result := Pending\<rparr>)
              (on_signal SIGINT (initial\<lparr>browser := Some 1\<rparr>)))
       = [ServerClose, CacheClear, BrowserClose 1]"
  using shutdown_calls [of SIGTERM initial calm_env "on_signal SIGTERM initial" 1]
        shutdown_calls [of SIGINT "initial\<lparr>browser := Some 1\<rparr>" calm_env
                           "on_signal SIGINT (initial\<lparr>browser := Some 1\<rparr>)" 1]
        shutdown_calls [of SIGINT "initial\<lparr>browser := Some 1\<rparr>"
                           "calm_env\<lparr>browser_close_result := Pending\<rparr>"
                           "on_signal SIGINT (initial\<lparr>browser := Some 1\<rparr>)" 1]
  by (simp add: initial_def calm_env_def emit_def)

subsection \<open>C9: the \<^verbatim>\<open>X-Cache-Status\<close> header\<close>

text \<open>
  Claim C9 says that the header of every successful response is \<^verbatim>\<open>HIT\<close>. The header is
  computed from the cache after \<open>generateImageOptimized\<close> has returned, and that function
  awaits \<^verbatim>\<open>page.close()\<close> after it has stored the entry: when a \<^verbatim>\<open>POST /cache-clear\<close> is
  handled during that await, the render succeeds and the header is \<^verbatim>\<open>MISS\<close>.
\<close>

theorem cache_status_miss_after_interleaved_clear:
  "status (fst (handle_request default_config clear_during_close_env
                  (post_request ''<h1>x</h1>'' None) initial)) = 200
   \<and> payload (fst (handle_request default_config clear_during_close_env
                     (post_request ''<h1>x</h1>'' None) initial))
       = Image [0x89, 0x50, 0x4E, 0x47]
   \<and> map_of (headers (fst (handle_request default_config clear_during_close_env
                              (post_request ''<h1>x</h1>'' None) initial)))
        ''X-Cache-Status'' = Some ''MISS''"
  by (simp add: run_defs example_defs)

text \<open>
  Claim C9, amended. For every response of \<^verbatim>\<open>POST /html-to-image\<close> with status 200, when
  nothing runs while \<^verbatim>\<open>page.close()\<close> is awaited, the \<^verbatim>\<open>X-Cache-Status\<close> header is
  \<^verbatim>\<open>HIT\<close>, for a fresh render as for an image served from the cache.
\<close>

theorem cache_status_header:
  assumes "handle_request cfg env req s = (res, s')"
    and "http_method req = ''POST''" and "path req = ''/html-to-image''"
    and "status res = 200"
    and "interleaved env AwaitPageClose = []"
  shows "map_of (headers res) ''X-Cache-Status'' = Some ''HIT''"
proof -
  have admitted: "throttle cfg req s = None"
    using assms(1,4) by (auto simp: handle_request_def throttle_def split: if_splits)
  then obtain s1 where body: "html_to_image_body cfg env req (request_enter s) = (res, s1)"
    using assms(1,2,3)
    by (auto simp: handle_request_def post_html_to_image_def split: prod.splits)
  let ?opts = "case body_options req of None \<Rightarrow> JObj [] | Some v \<Rightarrow> v"
  obtain html bytes ct d where
    g: "generateImageOptimized cfg env html ?opts (request_enter s) = (Inr bytes, s1)"
    and res: "res = image_response ct d bytes
                 [(''X-Cache-Status'',
                   if Map_has (imageCache s1) (generateCacheKey html ?opts)
                   then ''HIT'' else ''MISS'')]"
    using html_to_image_body_200 [OF body assms(4)] by blast
  have "Map_has (imageCache s1) (generateCacheKey html ?opts)"
    using generateImageOptimized_stores [OF g assms(5)] by (auto simp: Map_has_Map_get)
  then show ?thesis
    using res by (simp add: cache_status_of_image_response)
qed

text \<open>The theorem at a fresh render from the initial state.\<close>

theorem cache_status_header_witness:
  "handle_request default_config calm_env (post_request ''<h1>x</h1>'' None) initial
     = (fst (handle_request default_config calm_env (post_request ''<h1>x</h1>'' None) initial),
        snd (handle_request default_config calm_env (post_request ''<h1>x</h1>'' None) initial))
   \<and> http_method (post_request ''<h1>x</h1>'' None) = ''POST''
   \<and> path (post_request ''<h1>x</h1>'' None) = ''/html-to-image''
   \<and> status (fst (handle_request default_config calm_env (post_request ''<h1>x</h1>'' None)
                     initial)) = 200
   \<and> interleaved calm_env AwaitPageClose = []
   \<and> map_of (headers (fst (handle_request default_config calm_env
                              (post_request ''<h1>x</h1>'' None) initial)))
        ''X-Cache-Status'' = Some ''HIT''"
proof -
  let ?r = "handle_request default_config calm_env (post_request ''<h1>x</h1>'' None) initial"
  have a: "?r = (fst ?r, snd ?r)" by simp
  have b: "http_method (post_request ''<h1>x</h1>'' None) = ''POST''"
    and c: "path (post_request ''<h1>x</h1>'' None) = ''/html-to-image''"
    by (simp_all add: post_request_def)
  have d: "status (fst ?r) = 200"
    by (simp add: run_defs example_defs)
  have e: "interleaved calm_env AwaitPageClose = []"
    by (simp add: calm_env_def)
  show ?thesis
    using a b c d e cache_status_header [OF a b c d e] by blast
qed

subsection \<open>C10: which requests the throttle rejects\<close>



end
